theory Spec2Isabelle
  imports Main "HOL-Library.Sublist" "HOL-Library.Char_ord" "HOL-Library.List_Lexorder"
begin

section \<open>Data model (package model)\<close>

text \<open>
  Go strings are byte sequences: \<open>string\<close>. A nullable pointer field (\<open>*string\<close>,
  \<open>*int\<close>) is an \<open>option\<close>. The fields \<open>PageCount\<close> and \<open>PublishedYear\<close> are only ever
  compared, never computed with, so they are \<open>int\<close>; \<open>Page\<close> and \<open>PageSize\<close> enter
  arithmetic and are 64-bit values (see \<open>wrap64\<close> below). A \<open>time.Time\<close> is an instant on a
  totally ordered time line: \<open>int\<close>, the nanoseconds since the zero \<open>time.Time\<close>, so that
  the zero value \<open>time.Time{}\<close> is 0.

  \<open>EnrichmentStatus\<close> is a string type with three named constants. The only other value
  that occurs is the empty string of a field that was never set: \<open>EnrichmentUnset\<close>.
\<close>

datatype EnrichmentStatus =
  EnrichmentUnset | EnrichmentNotRequested | EnrichmentOK | EnrichmentPartial

record EnrichmentMeta =
  Attempted :: bool
  Source :: string
  Status :: EnrichmentStatus
  LookedUpISBN :: string

record EnrichedBook =
  Title :: "string option"
  Subtitle :: "string option"
  PublishedYear :: "int option"
  PageCount :: "int option"
  CoverURL :: "string option"
  Authors :: "string list"

record CreateBookInput =
  ISBN :: "string option"
  Title :: "string option"
  Subtitle :: "string option"
  PublishedYear :: "int option"
  PageCount :: "int option"
  CoverURL :: "string option"
  Tags :: "string list"
  Authors :: "string list"
  Enrich :: bool
  RequireEnrichment :: bool

record 'a Page =
  Data :: "'a list"
  Page :: int
  PageSize :: int
  Total :: int

record SortKey =
  Field :: string
  Desc :: bool

record ListQuery =
  Q :: "string option"
  Author :: "string option"
  Year :: "int option"
  Tag :: "string option"
  Sort :: "SortKey list"
  Page :: int
  PageSize :: int

record Book =
  ID :: string
  ISBN :: "string option"
  Title :: string
  Subtitle :: "string option"
  PublishedYear :: "int option"
  PageCount :: "int option"
  CoverURL :: "string option"
  Tags :: "string list"
  Authors :: "string list"
  Enrichment :: EnrichmentMeta
  CreatedAt :: int
  UpdatedAt :: int

text \<open>
  The error values of the two packages: \<open>errNotFound\<close> and \<open>errConflict\<close> are the
  store's own (package adapter), the other four are the service's (package core).
\<close>

datatype error =
  errNotFound | errConflict | ErrValidation | ErrConflict | ErrNotFound | ErrUpstream

text \<open>
  The zero value \<open>model.Book{}\<close>, from which the tests build their records: every string
  empty, every pointer nil, every slice empty, the status unset, both times the zero time.
\<close>

definition zeroBook :: Book where
  "zeroBook = \<lparr>ID = '''', ISBN = None, Title = '''', Subtitle = None, PublishedYear = None,
     PageCount = None, CoverURL = None, Tags = [], Authors = [],
     Enrichment = \<lparr>Attempted = False, Source = '''', Status = EnrichmentUnset,
       LookedUpISBN = ''''\<rparr>,
     CreatedAt = 0, UpdatedAt = 0\<rparr>"

section \<open>Book store (package adapter, BookRepo)\<close>

text \<open>
  The two Go maps are partial functions. The mutex makes every operation one atomic
  step, so an operation is a function from the store to the new store and a result.
\<close>

record BookRepo =
  byID :: "string \<rightharpoonup> Book"
  byISBN :: "string \<rightharpoonup> string"

definition NewBookRepo :: BookRepo where
  "NewBookRepo = \<lparr>byID = Map.empty, byISBN = Map.empty\<rparr>"

definition copyBook :: "Book \<Rightarrow> Book" where
  "copyBook b = b\<lparr>Tags := [] @ Tags b, Authors := [] @ Authors b\<rparr>"

text \<open>\<open>strings.ReplaceAll(s, "-", "")\<close> deletes every occurrence of the one-byte string.\<close>

definition normalizeISBN :: "string \<Rightarrow> string" where
  "normalizeISBN s = removeAll CHR '' '' (removeAll CHR ''-'' s)"

definition Create :: "BookRepo \<Rightarrow> Book \<Rightarrow> BookRepo \<times> (error + Book)" where
  "Create r b =
     (if ID b = '''' then (r, Inl errConflict)
      else if byID r (ID b) \<noteq> None then (r, Inl errConflict)
      else (case ISBN b of
          None \<Rightarrow> (r\<lparr>byID := (byID r)(ID b \<mapsto> copyBook b)\<rparr>, Inr (copyBook b))
        | Some s \<Rightarrow>
            (let key = normalizeISBN s in
             if key \<noteq> '''' then
               (if byISBN r key \<noteq> None then (r, Inl errConflict)
                else (r\<lparr>byISBN := (byISBN r)(key \<mapsto> ID b),
                        byID := (byID r)(ID b \<mapsto> copyBook b)\<rparr>, Inr (copyBook b)))
             else (r\<lparr>byID := (byID r)(ID b \<mapsto> copyBook b)\<rparr>, Inr (copyBook b)))))"

definition GetByID :: "BookRepo \<Rightarrow> string \<Rightarrow> error + Book" where
  "GetByID r bid = (case byID r bid of None \<Rightarrow> Inl errNotFound | Some b \<Rightarrow> Inr (copyBook b))"

definition GetByISBN :: "BookRepo \<Rightarrow> string \<Rightarrow> error + Book" where
  "GetByISBN r isbn =
     (let key = normalizeISBN isbn in
      case byISBN r key of
        None \<Rightarrow> Inl errNotFound
      | Some bid \<Rightarrow> (case byID r bid of None \<Rightarrow> Inl errNotFound | Some b \<Rightarrow> Inr (copyBook b)))"

definition Delete :: "BookRepo \<Rightarrow> string \<Rightarrow> BookRepo \<times> (error + unit)" where
  "Delete r bid =
     (case byID r bid of
        None \<Rightarrow> (r, Inl errNotFound)
      | Some b \<Rightarrow>
          (let r1 = (case ISBN b of
                       None \<Rightarrow> r
                     | Some s \<Rightarrow> r\<lparr>byISBN := (byISBN r)(normalizeISBN s := None)\<rparr>)
           in (r1\<lparr>byID := (byID r1)(bid := None)\<rparr>, Inr ())))"

text \<open>The store states that \<open>Create\<close> and \<open>Delete\<close> can reach from the empty store.\<close>

inductive reachable :: "BookRepo \<Rightarrow> bool" where
  init: "reachable NewBookRepo"
| create: "reachable r \<Longrightarrow> reachable (fst (Create r b))"
| delete: "reachable r \<Longrightarrow> reachable (fst (Delete r bid))"

text \<open>
  The index invariant: a record is stored under its own identifier; a stored record
  whose ISBN normalises to a non-empty key owns the index entry of that key; every index
  entry has a non-empty key and points to a stored record whose ISBN normalises to it.
\<close>

definition index_inv :: "BookRepo \<Rightarrow> bool" where
  "index_inv r \<longleftrightarrow>
     (\<forall>i b. byID r i = Some b \<longrightarrow>
        ID b = i \<and>
        (\<forall>s. ISBN b = Some s \<longrightarrow> normalizeISBN s \<noteq> '''' \<longrightarrow>
           byISBN r (normalizeISBN s) = Some i)) \<and>
     (\<forall>k i. byISBN r k = Some i \<longrightarrow>
        k \<noteq> '''' \<and> (\<exists>b s. byID r i = Some b \<and> ISBN b = Some s \<and> normalizeISBN s = k))"

subsection \<open>Filtering\<close>

text \<open>
  \<open>strings.ToLower\<close> on bytes: an ASCII capital letter is moved to its small letter,
  every other byte is kept. On a string of ASCII bytes this is Go's function. On other
  strings it is not: Go decodes UTF-8 and lowers the capital letters beyond ASCII too, so
  every statement about \<open>ToLower\<close>, and about the filters that call it, is made for ASCII
  strings only (\<open>ascii_text\<close> below). \<open>strings.Contains\<close> is the search for a contiguous
  occurrence.
\<close>

definition lowerByte :: "char \<Rightarrow> char" where
  "lowerByte c =
     (if CHR ''A'' \<le> c \<and> c \<le> CHR ''Z'' then char_of (of_char c + (32::nat)) else c)"

definition ToLower :: "string \<Rightarrow> string" where
  "ToLower s = map lowerByte s"

fun Contains :: "string \<Rightarrow> string \<Rightarrow> bool" where
  "Contains [] substr = (substr = [])"
| "Contains (c # s) substr = (prefix substr (c # s) \<or> Contains s substr)"

text \<open>The two search loops of \<open>matchFilters\<close> (\<open>found\<close> set and \<open>break\<close>).\<close>

fun anyAuthor :: "string \<Rightarrow> string list \<Rightarrow> bool" where
  "anyAuthor needle [] = False"
| "anyAuthor needle (a # as) =
     (if Contains (ToLower a) needle then True else anyAuthor needle as)"

fun anyTag :: "string \<Rightarrow> string list \<Rightarrow> bool" where
  "anyTag tag [] = False"
| "anyTag tag (t # ts) = (if t = tag then True else anyTag tag ts)"

definition matchFilters :: "Book \<Rightarrow> ListQuery \<Rightarrow> bool" where
  "matchFilters b q =
     (if (case Q q of
            None \<Rightarrow> False
          | Some qs \<Rightarrow>
              (let needle = ToLower qs in
               if \<not> Contains (ToLower (Title b)) needle then
                 (let sub = (case Subtitle b of None \<Rightarrow> '''' | Some s \<Rightarrow> ToLower s)
                  in \<not> Contains sub needle)
               else False))
      then False
      else if (case Author q of
                 None \<Rightarrow> False
               | Some a \<Rightarrow> \<not> anyAuthor (ToLower a) (Authors b))
      then False
      else if (case Tag q of None \<Rightarrow> False | Some t \<Rightarrow> \<not> anyTag t (Tags b))
      then False
      else if (case Year q of
                 None \<Rightarrow> False
               | Some y \<Rightarrow> (case PublishedYear b of None \<Rightarrow> True | Some py \<Rightarrow> py \<noteq> y))
      then False
      else True)"

text \<open>The filter loop of \<open>List\<close>: a record that does not match is skipped.\<close>

fun filterBooks :: "Book list \<Rightarrow> ListQuery \<Rightarrow> Book list" where
  "filterBooks [] q = []"
| "filterBooks (b # items) q =
     (if \<not> matchFilters b q then filterBooks items q else b # filterBooks items q)"

subsection \<open>Sorting\<close>

text \<open>
  The insertion sort of Go's package sort: each element in turn moves left while it is
  \<open>less\<close> than its left neighbour. In \<open>sink\<close> the sorted part is held last element
  first. \<open>sort.Slice\<close> runs exactly this on a slice of at most 12 elements, and there
  the model is Go's function. On a longer slice Go runs a pattern-defeating quicksort,
  which is not stable: the result is ordered by \<open>less\<close> as the model's is, but elements
  that \<open>less\<close> does not tell apart may come in another order than the model's.
  \<open>sort.SliceStable\<close> returns the stable arrangement, which is what insertion yields, at
  every length.
\<close>

fun sink :: "('a \<Rightarrow> 'a \<Rightarrow> bool) \<Rightarrow> 'a \<Rightarrow> 'a list \<Rightarrow> 'a list" where
  "sink lessf x [] = [x]"
| "sink lessf x (y # placed) =
     (if lessf x y then y # sink lessf x placed else x # y # placed)"

definition insertionSort :: "('a \<Rightarrow> 'a \<Rightarrow> bool) \<Rightarrow> 'a list \<Rightarrow> 'a list" where
  "insertionSort lessf xs = rev (foldl (\<lambda>placed x. sink lessf x placed) [] xs)"

definition sort_Slice :: "('a \<Rightarrow> 'a \<Rightarrow> bool) \<Rightarrow> 'a list \<Rightarrow> 'a list" where
  "sort_Slice lessf xs = insertionSort lessf xs"

definition sort_SliceStable :: "('a \<Rightarrow> 'a \<Rightarrow> bool) \<Rightarrow> 'a list \<Rightarrow> 'a list" where
  "sort_SliceStable lessf xs = insertionSort lessf xs"

text \<open>
  The comparison of \<open>sortBooks\<close> when sort keys are given: the keys in turn, a key that
  does not decide passes to the next one (so does a field name outside the four
  cases), and the identifier decides last.
\<close>

fun keysLess :: "SortKey list \<Rightarrow> Book \<Rightarrow> Book \<Rightarrow> bool" where
  "keysLess [] bi bj = (ID bi < ID bj)"
| "keysLess (k # ks) bi bj =
     (if Field k = ''title'' then
        (if Title bi \<noteq> Title bj then
           (if Desc k then Title bi > Title bj else Title bi < Title bj)
         else keysLess ks bi bj)
      else if Field k = ''published_year'' then
        (case PublishedYear bi of
           None \<Rightarrow>
             (case PublishedYear bj of
                None \<Rightarrow> keysLess ks bi bj
              | Some y \<Rightarrow> (if Desc k then False else True))
         | Some x \<Rightarrow>
             (case PublishedYear bj of
                None \<Rightarrow> (if Desc k then True else False)
              | Some y \<Rightarrow>
                  (if x \<noteq> y then (if Desc k then x > y else x < y)
                   else keysLess ks bi bj)))
      else if Field k = ''created_at'' then
        (if CreatedAt bi \<noteq> CreatedAt bj then
           (if Desc k then CreatedAt bi > CreatedAt bj else CreatedAt bi < CreatedAt bj)
         else keysLess ks bi bj)
      else if Field k = ''updated_at'' then
        (if UpdatedAt bi \<noteq> UpdatedAt bj then
           (if Desc k then UpdatedAt bi > UpdatedAt bj else UpdatedAt bi < UpdatedAt bj)
         else keysLess ks bi bj)
      else keysLess ks bi bj)"

definition sortBooks :: "Book list \<Rightarrow> SortKey list \<Rightarrow> Book list" where
  "sortBooks bs keys =
     (if length keys = 0 then sort_Slice (\<lambda>bi bj. CreatedAt bi > CreatedAt bj) bs
      else sort_SliceStable (keysLess keys) bs)"

subsection \<open>Listing\<close>

text \<open>
  Go's \<open>int\<close> is a 64-bit two's complement integer here; \<open>wrap64\<close> is the value an
  arithmetic result takes in it.
\<close>

definition wrap64 :: "int \<Rightarrow> int" where
  "wrap64 x = (x + 2 ^ 63) mod 2 ^ 64 - 2 ^ 63"

text \<open>
  The \<open>range\<close> over \<open>r.byID\<close> visits every key once, in an order Go leaves
  unspecified: \<open>ks\<close> is that order, and \<open>snapshot\<close> the slice the loop builds.
\<close>

definition iteration_order :: "BookRepo \<Rightarrow> string list \<Rightarrow> bool" where
  "iteration_order r ks \<longleftrightarrow> distinct ks \<and> set ks = dom (byID r)"

definition snapshot :: "BookRepo \<Rightarrow> string list \<Rightarrow> Book list" where
  "snapshot r ks = List.map_filter (\<lambda>k. map_option copyBook (byID r k)) ks"

text \<open>
  A run-time panic of \<open>List\<close>: \<open>make\<close> with a length that is negative (or beyond
  memory), or the slice expression \<open>out[start:end]\<close> with bounds out of range.
\<close>

datatype panic = RuntimePanic

definition List :: "BookRepo \<Rightarrow> string list \<Rightarrow> ListQuery \<Rightarrow> panic + Book Page" where
  "List r ks q =
     (let items = snapshot r ks;
          out = sortBooks (filterBooks items q) (Sort q);
          page = (if Page q < 1 then 1 else Page q);
          size = (if PageSize q < 1 then 20 else PageSize q);
          total = int (length out);
          start0 = wrap64 ((page - 1) * size);
          start = (if start0 > total then total else start0);
          end0 = wrap64 (start + size);
          end' = (if end0 > total then total else end0);
          n = wrap64 (end' - start)
      in if n < 0 \<or> start < 0 \<or> end' < start then Inl RuntimePanic
         else Inr \<lparr>Data = take (nat (end' - start)) (drop (nat start) out),
                   Page.Page = page, Page.PageSize = size, Total = total\<rparr>)"

section \<open>Catalog service (package core, Service)\<close>

definition valueOr :: "string option \<Rightarrow> string \<Rightarrow> string" where
  "valueOr p def = (case p of None \<Rightarrow> def | Some v \<Rightarrow> v)"

definition merge :: "Book \<Rightarrow> EnrichedBook \<Rightarrow> Book" where
  "merge dst e =
     (let d1 = (case EnrichedBook.Title e of
                  None \<Rightarrow> dst
                | Some t \<Rightarrow> if Title dst = '''' then dst\<lparr>Title := t\<rparr> else dst);
          d2 = (if Subtitle d1 = None \<and> EnrichedBook.Subtitle e \<noteq> None
                then d1\<lparr>Subtitle := EnrichedBook.Subtitle e\<rparr> else d1);
          d3 = (if PublishedYear d2 = None \<and> EnrichedBook.PublishedYear e \<noteq> None
                then d2\<lparr>PublishedYear := EnrichedBook.PublishedYear e\<rparr> else d2);
          d4 = (if PageCount d3 = None \<and> EnrichedBook.PageCount e \<noteq> None
                then d3\<lparr>PageCount := EnrichedBook.PageCount e\<rparr> else d3);
          d5 = (if CoverURL d4 = None \<and> EnrichedBook.CoverURL e \<noteq> None
                then d4\<lparr>CoverURL := EnrichedBook.CoverURL e\<rparr> else d4)
      in if length (Authors d5) = 0 \<and> length (EnrichedBook.Authors e) > 0
         then d5\<lparr>Authors := [] @ EnrichedBook.Authors e\<rparr> else d5)"

text \<open>
  What \<open>CreateBook\<close> takes from outside: the enrichment client (\<open>Inl\<close> is its error),
  the identifier \<open>uuid.NewString()\<close> returns and the two readings of \<open>time.Now()\<close>.
  \<open>construct\<close> is the record literal of \<open>CreateBook\<close>, \<open>enrichStep\<close> its block
  "optional enrichment".
\<close>

definition construct :: "string \<Rightarrow> int \<Rightarrow> int \<Rightarrow> CreateBookInput \<Rightarrow> Book" where
  "construct uuid now1 now2 inp =
     \<lparr>ID = uuid, ISBN = CreateBookInput.ISBN inp,
      Title = valueOr (CreateBookInput.Title inp) '''',
      Subtitle = CreateBookInput.Subtitle inp,
      PublishedYear = CreateBookInput.PublishedYear inp,
      PageCount = CreateBookInput.PageCount inp,
      CoverURL = CreateBookInput.CoverURL inp,
      Tags = [] @ CreateBookInput.Tags inp,
      Authors = [] @ CreateBookInput.Authors inp,
      Enrichment = \<lparr>Attempted = False, Source = '''', Status = EnrichmentNotRequested,
        LookedUpISBN = ''''\<rparr>,
      CreatedAt = now1, UpdatedAt = now2\<rparr>"

definition enrichStep ::
  "(string \<Rightarrow> string + EnrichedBook) \<Rightarrow> CreateBookInput \<Rightarrow> Book \<Rightarrow> error + Book" where
  "enrichStep FetchByISBN inp b =
     (case CreateBookInput.ISBN inp of
        None \<Rightarrow> Inr b
      | Some isbn \<Rightarrow>
          if Enrich inp \<and> isbn \<noteq> '''' then
            (let b1 = b\<lparr>Enrichment := (Enrichment b)\<lparr>Attempted := True,
                        Source := ''openlibrary'', LookedUpISBN := isbn\<rparr>\<rparr>
             in case FetchByISBN isbn of
                  Inl err \<Rightarrow>
                    if RequireEnrichment inp then Inl ErrUpstream
                    else Inr (b1\<lparr>Enrichment := (Enrichment b1)\<lparr>Status := EnrichmentPartial\<rparr>\<rparr>)
                | Inr res \<Rightarrow>
                    (let b2 = merge b1 res
                     in Inr (b2\<lparr>Enrichment := (Enrichment b2)\<lparr>Status := EnrichmentOK\<rparr>\<rparr>)))
          else Inr b)"

definition CreateBook ::
  "(string \<Rightarrow> string + EnrichedBook) \<Rightarrow> string \<Rightarrow> int \<Rightarrow> int \<Rightarrow> BookRepo \<Rightarrow> CreateBookInput
     \<Rightarrow> BookRepo \<times> (error + Book)" where
  "CreateBook FetchByISBN uuid now1 now2 r inp =
     (if (\<not> Enrich inp \<or> CreateBookInput.ISBN inp = None) \<and>
         (CreateBookInput.Title inp = None \<or> CreateBookInput.Title inp = Some '''')
      then (r, Inl ErrValidation)
      else if (case CreateBookInput.PageCount inp of None \<Rightarrow> False | Some p \<Rightarrow> p < 1)
      then (r, Inl ErrValidation)
      else if (case CreateBookInput.PublishedYear inp of
                 None \<Rightarrow> False
               | Some y \<Rightarrow> y < 1450 \<or> y > 3000)
      then (r, Inl ErrValidation)
      else
        (case enrichStep FetchByISBN inp (construct uuid now1 now2 inp) of
           Inl err \<Rightarrow> (r, Inl err)
         | Inr b \<Rightarrow>
             if (case ISBN b of
                   None \<Rightarrow> False
                 | Some s \<Rightarrow> s \<noteq> '''' \<and> (case GetByISBN r s of Inl err \<Rightarrow> False | Inr found \<Rightarrow> True))
             then (r, Inl ErrConflict)
             else Create r b))"

text \<open>
  The zero value \<open>model.CreateBookInput{}\<close>, and the enrichment client of the service's
  tests (\<open>mockEnrich\<close>): a miss is an error, a hit returns one fixed record.
\<close>

definition zeroInput :: CreateBookInput where
  "zeroInput = \<lparr>CreateBookInput.ISBN = None, CreateBookInput.Title = None,
     CreateBookInput.Subtitle = None, CreateBookInput.PublishedYear = None,
     CreateBookInput.PageCount = None, CreateBookInput.CoverURL = None,
     CreateBookInput.Tags = [], CreateBookInput.Authors = [],
     CreateBookInput.Enrich = False, CreateBookInput.RequireEnrichment = False\<rparr>"

definition mockEnrich :: "bool \<Rightarrow> string \<Rightarrow> string + EnrichedBook" where
  "mockEnrich hit isbn =
     (if \<not> hit then Inl ''miss''
      else Inr \<lparr>EnrichedBook.Title = Some ''Clean Architecture'',
                EnrichedBook.Subtitle = None,
                EnrichedBook.PublishedYear = Some 2017,
                EnrichedBook.PageCount = Some 432,
                EnrichedBook.CoverURL = None,
                EnrichedBook.Authors = [''Robert C. Martin'']\<rparr>)"

definition ListBooks :: "BookRepo \<Rightarrow> string list \<Rightarrow> ListQuery \<Rightarrow> panic + Book Page" where
  "ListBooks r ks q = List r ks q"

definition GetBook :: "BookRepo \<Rightarrow> string \<Rightarrow> error + Book" where
  "GetBook r bid = (case GetByID r bid of Inl err \<Rightarrow> Inl ErrNotFound | Inr b \<Rightarrow> Inr b)"

definition DeleteBook :: "BookRepo \<Rightarrow> string \<Rightarrow> BookRepo \<times> (error + unit)" where
  "DeleteBook r bid =
     (case Delete r bid of
        (r', Inl err) \<Rightarrow> (r', Inl ErrNotFound)
      | (r', Inr u) \<Rightarrow> (r', Inr ()))"

section \<open>The rules in the words of the specification\<close>

text \<open>
  Validation, as the specification says it: the title is required and non-empty unless
  enrichment is requested and an ISBN is supplied; the page count, if given, is at least
  1; the published year, if given, lies in 1450..3000.
\<close>

definition valid_as_specified :: "CreateBookInput \<Rightarrow> bool" where
  "valid_as_specified inp \<longleftrightarrow>
     ((Enrich inp \<and> CreateBookInput.ISBN inp \<noteq> None) \<or>
      (case CreateBookInput.Title inp of None \<Rightarrow> False | Some t \<Rightarrow> t \<noteq> '''')) \<and>
     (case CreateBookInput.PageCount inp of None \<Rightarrow> True | Some p \<Rightarrow> 1 \<le> p) \<and>
     (case CreateBookInput.PublishedYear inp of None \<Rightarrow> True | Some y \<Rightarrow> 1450 \<le> y \<and> y \<le> 3000)"











section \<open>Properties of the store\<close>

lemma copyBook_id [simp]: "copyBook b = b"
  by (simp add: copyBook_def)

lemma index_inv_init: "index_inv NewBookRepo"
  by (simp add: index_inv_def NewBookRepo_def)

lemma byID_Delete:
  "byID (fst (Delete r bid)) = (case byID r bid of None \<Rightarrow> byID r | Some b \<Rightarrow> (byID r)(bid := None))"
  by (simp add: Delete_def Let_def split: option.splits)

lemma byISBN_Delete:
  "byISBN (fst (Delete r bid)) =
     (case byID r bid of
        None \<Rightarrow> byISBN r
      | Some b \<Rightarrow> (case ISBN b of None \<Rightarrow> byISBN r | Some s \<Rightarrow> (byISBN r)(normalizeISBN s := None)))"
  by (simp add: Delete_def Let_def split: option.splits)

lemma index_inv_own: "index_inv r \<Longrightarrow> byID r i = Some b \<Longrightarrow> ID b = i"
  unfolding index_inv_def by blast

lemma index_inv_idx:
  "index_inv r \<Longrightarrow> byID r i = Some b \<Longrightarrow> ISBN b = Some s \<Longrightarrow> normalizeISBN s \<noteq> ''''
     \<Longrightarrow> byISBN r (normalizeISBN s) = Some i"
  unfolding index_inv_def by blast

lemma index_inv_key: "index_inv r \<Longrightarrow> byISBN r k = Some i \<Longrightarrow> k \<noteq> ''''"
  unfolding index_inv_def by blast

lemma index_inv_empty_key: "index_inv r \<Longrightarrow> byISBN r '''' = None"
  unfolding index_inv_def by (cases "byISBN r ''''") blast+

lemma index_inv_back:
  "index_inv r \<Longrightarrow> byISBN r k = Some i
     \<Longrightarrow> \<exists>b s. byID r i = Some b \<and> ISBN b = Some s \<and> normalizeISBN s = k"
  unfolding index_inv_def by blast

lemma index_invI:
  assumes "\<And>i b. byID r i = Some b \<Longrightarrow> ID b = i"
    and "\<And>i b s. byID r i = Some b \<Longrightarrow> ISBN b = Some s \<Longrightarrow> normalizeISBN s \<noteq> ''''
           \<Longrightarrow> byISBN r (normalizeISBN s) = Some i"
    and "\<And>k i. byISBN r k = Some i \<Longrightarrow> k \<noteq> ''''"
    and "\<And>k i. byISBN r k = Some i
           \<Longrightarrow> \<exists>b s. byID r i = Some b \<and> ISBN b = Some s \<and> normalizeISBN s = k"
  shows "index_inv r"
  unfolding index_inv_def using assms by blast

lemma index_inv_Delete:
  assumes inv: "index_inv r"
  shows "index_inv (fst (Delete r bid))"
proof (cases "byID r bid")
  case None
  then have "fst (Delete r bid) = r" by (simp add: Delete_def)
  with inv show ?thesis by simp
next
  case (Some b)
  let ?r' = "fst (Delete r bid)"
  have ID: "byID ?r' = (byID r)(bid := None)"
    using Some by (simp add: byID_Delete)
  have IS: "byISBN ?r' = (case ISBN b of None \<Rightarrow> byISBN r | Some s \<Rightarrow> (byISBN r)(normalizeISBN s := None))"
    using Some by (simp add: byISBN_Delete)
  have sub: "\<And>k i. byISBN ?r' k = Some i \<Longrightarrow> byISBN r k = Some i"
    unfolding IS by (cases "ISBN b") (simp_all split: if_splits)
  have subID: "\<And>i b'. byID ?r' i = Some b' \<Longrightarrow> byID r i = Some b' \<and> i \<noteq> bid"
    unfolding ID by (simp split: if_splits)
  show ?thesis
  proof (rule index_invI)
    fix i b' assume "byID ?r' i = Some b'"
    then show "ID b' = i" using subID index_inv_own[OF inv] by blast
  next
    fix i b' s
    assume h: "byID ?r' i = Some b'" "ISBN b' = Some s" "normalizeISBN s \<noteq> ''''"
    from subID[OF h(1)] have h1: "byID r i = Some b'" "i \<noteq> bid" by simp_all
    have e: "byISBN r (normalizeISBN s) = Some i"
      by (rule index_inv_idx[OF inv h1(1) h(2) h(3)])
    show "byISBN ?r' (normalizeISBN s) = Some i"
    proof (cases "ISBN b")
      case None
      then show ?thesis using e by (simp add: IS)
    next
      case (Some s0)
      have "normalizeISBN s \<noteq> normalizeISBN s0"
      proof
        assume eq: "normalizeISBN s = normalizeISBN s0"
        then have "normalizeISBN s0 \<noteq> ''''" using h(3) by simp
        from index_inv_idx[OF inv \<open>byID r bid = Some b\<close> Some this]
        have "byISBN r (normalizeISBN s0) = Some bid" .
        with e eq h1(2) show False by simp
      qed
      then show ?thesis using e Some by (simp add: IS)
    qed
  next
    fix k i assume "byISBN ?r' k = Some i"
    then show "k \<noteq> ''''" using sub index_inv_key[OF inv] by blast
  next
    fix k i assume h: "byISBN ?r' k = Some i"
    from sub[OF h] have h1: "byISBN r k = Some i" .
    from index_inv_back[OF inv h1] obtain b' s where
      bs: "byID r i = Some b'" "ISBN b' = Some s" "normalizeISBN s = k" by blast
    have "i \<noteq> bid"
    proof
      assume "i = bid"
      with bs Some have "ISBN b = Some s" by simp
      with h bs(3) show False by (simp add: IS)
    qed
    with bs show "\<exists>b s. byID ?r' i = Some b \<and> ISBN b = Some s \<and> normalizeISBN s = k"
      by (simp add: ID)
  qed
qed


lemma Create_fail: "snd (Create r b) = Inl e \<Longrightarrow> e = errConflict \<and> fst (Create r b) = r"
  by (auto simp: Create_def Let_def split: option.splits if_splits)

lemma Create_ok:
  assumes "snd (Create r b) = Inr x"
  shows "x = b" and "ID b \<noteq> []" and "byID r (ID b) = None"
    and "byID (fst (Create r b)) = (byID r)(ID b \<mapsto> b)"
    and "byISBN (fst (Create r b)) =
       (case ISBN b of
          None \<Rightarrow> byISBN r
        | Some s \<Rightarrow> if normalizeISBN s \<noteq> [] then (byISBN r)(normalizeISBN s \<mapsto> ID b)
            else byISBN r)"
    and "\<And>s. ISBN b = Some s \<Longrightarrow> normalizeISBN s \<noteq> [] \<Longrightarrow> byISBN r (normalizeISBN s) = None"
  using assms by (auto simp: Create_def Let_def split: option.splits if_splits)

lemma Create_result: "snd (Create r b) = Inl errConflict \<or> snd (Create r b) = Inr b"
  by (auto simp: Create_def Let_def split: option.splits if_splits)

lemma index_inv_Create:
  assumes inv: "index_inv r"
  shows "index_inv (fst (Create r b))"
proof (cases "snd (Create r b)")
  case (Inl e)
  from Create_fail[OF this] inv show ?thesis by simp
next
  case (Inr x)
  let ?r' = "fst (Create r b)"
  note ok = Create_ok[OF Inr]
  have ID: "byID ?r' = (byID r)(ID b \<mapsto> b)" by (rule ok(4))
  note IS = ok(5)
  have fresh: "byID r (ID b) = None" by (rule ok(3))
  have old: "\<And>k i. byISBN r k = Some i \<Longrightarrow> byISBN ?r' k = Some i"
  proof -
    fix k i assume h: "byISBN r k = Some i"
    show "byISBN ?r' k = Some i"
    proof (cases "ISBN b")
      case None then show ?thesis using h by (simp add: IS)
    next
      case (Some s)
      show ?thesis
      proof (cases "normalizeISBN s = []")
        case True then show ?thesis using h Some by (simp add: IS)
      next
        case False
        from ok(6)[OF Some False] h have "k \<noteq> normalizeISBN s" by auto
        then show ?thesis using h Some False by (simp add: IS)
      qed
    qed
  qed
  have new: "\<And>k i. byISBN ?r' k = Some i \<Longrightarrow>
      byISBN r k = Some i \<or> (i = ID b \<and> k \<noteq> [] \<and> (\<exists>s. ISBN b = Some s \<and> normalizeISBN s = k))"
    unfolding IS by (cases "ISBN b") (auto split: if_splits)
  show ?thesis
  proof (rule index_invI)
    fix i b' assume "byID ?r' i = Some b'"
    then show "ID b' = i"
      unfolding ID using index_inv_own[OF inv] by (auto split: if_splits)
  next
    fix i b' s
    assume h: "byID ?r' i = Some b'" "ISBN b' = Some s" "normalizeISBN s \<noteq> ''''"
    show "byISBN ?r' (normalizeISBN s) = Some i"
    proof (cases "i = ID b")
      case True
      with h(1) have "b' = b" by (simp add: ID)
      with h(2,3) True show ?thesis by (simp add: IS)
    next
      case False
      with h(1) have "byID r i = Some b'" by (simp add: ID)
      from index_inv_idx[OF inv this h(2) h(3)] show ?thesis by (rule old)
    qed
  next
    fix k i assume "byISBN ?r' k = Some i"
    from new[OF this] show "k \<noteq> ''''" using index_inv_key[OF inv] by blast
  next
    fix k i assume "byISBN ?r' k = Some i"
    from new[OF this]
    show "\<exists>b s. byID ?r' i = Some b \<and> ISBN b = Some s \<and> normalizeISBN s = k"
    proof
      assume h: "byISBN r k = Some i"
      from index_inv_back[OF inv h] obtain b' s where
        bs: "byID r i = Some b'" "ISBN b' = Some s" "normalizeISBN s = k" by blast
      with fresh have "i \<noteq> ID b" by auto
      with bs show ?thesis by (simp add: ID)
    next
      assume "i = ID b \<and> k \<noteq> [] \<and> (\<exists>s. ISBN b = Some s \<and> normalizeISBN s = k)"
      then show ?thesis by (simp add: ID)
    qed
  qed
qed

lemma reachable_index_inv: "reachable r \<Longrightarrow> index_inv r"
  by (induction rule: reachable.induct)
    (simp_all add: index_inv_init index_inv_Create index_inv_Delete)

subsection \<open>Uniqueness of the ISBN\<close>

text \<open>
  Claim C1, as the code has it. In every store that \<open>Create\<close> and \<open>Delete\<close> reach from
  the empty one: when two ISBN strings normalise to the same non-empty string, creating a
  record with the first and then one with the second fails with the store's conflict
  error, and leaves the store as it was; a record without ISBN leaves the index untouched
  and is refused for its identifier only (empty, or taken); every index entry leads to a
  stored record whose ISBN normalises to its key; and at most one stored record has a
  given non-empty normalised ISBN. An ISBN that normalises to the empty string is not
  indexed and never conflicts (the guard \<open>key != ""\<close> of \<open>Create\<close>): creating a record
  with such an ISBN leaves the index untouched, the record is refused for its identifier
  only (empty, or taken) and stored otherwise, the index has no entry under the empty
  key, and \<open>GetByISBN\<close> finds nothing for such an ISBN.
\<close>

theorem Create_isbn_unique:
  assumes "reachable r"
  shows "(\<forall>b1 b2 a c.
            ISBN b1 = Some a \<and> ISBN b2 = Some c \<and> normalizeISBN a = normalizeISBN c \<and>
            normalizeISBN a \<noteq> '''' \<and> snd (Create r b1) = Inr b1
            \<longrightarrow> Create (fst (Create r b1)) b2 = (fst (Create r b1), Inl errConflict)) \<and>
         (\<forall>b. ISBN b = None \<longrightarrow>
            byISBN (fst (Create r b)) = byISBN r \<and>
            (snd (Create r b) = Inl errConflict \<longleftrightarrow> ID b = '''' \<or> byID r (ID b) \<noteq> None) \<and>
            (snd (Create r b) = Inr b \<longleftrightarrow> ID b \<noteq> '''' \<and> byID r (ID b) = None)) \<and>
         (\<forall>b s. ISBN b = Some s \<and> normalizeISBN s = '''' \<longrightarrow>
            byISBN (fst (Create r b)) = byISBN r \<and>
            (snd (Create r b) = Inl errConflict \<longleftrightarrow> ID b = '''' \<or> byID r (ID b) \<noteq> None) \<and>
            (snd (Create r b) = Inr b \<longleftrightarrow> ID b \<noteq> '''' \<and> byID r (ID b) = None) \<and>
            GetByISBN r s = Inl errNotFound) \<and>
         byISBN r '''' = None \<and>
         (\<forall>k i. byISBN r k = Some i \<longrightarrow>
            (\<exists>b s. byID r i = Some b \<and> ISBN b = Some s \<and> normalizeISBN s = k)) \<and>
         (\<forall>i j b b' a c.
            byID r i = Some b \<and> byID r j = Some b' \<and> ISBN b = Some a \<and> ISBN b' = Some c \<and>
            normalizeISBN a = normalizeISBN c \<and> normalizeISBN a \<noteq> ''''
            \<longrightarrow> i = j \<and> b = b')"
proof (intro conjI allI impI)
  fix b1 b2 :: Book and a c
  assume h: "ISBN b1 = Some a \<and> ISBN b2 = Some c \<and> normalizeISBN a = normalizeISBN c \<and>
            normalizeISBN a \<noteq> '''' \<and> snd (Create r b1) = Inr b1"
  from h have ok: "snd (Create r b1) = Inr b1" by blast
  from h have a: "ISBN b1 = Some a" by blast
  from h have c: "ISBN b2 = Some c" by blast
  from h have eq: "normalizeISBN c = normalizeISBN a" by simp
  from h have ne: "normalizeISBN a \<noteq> ''''" by blast
  have "byISBN (fst (Create r b1)) (normalizeISBN a) = Some (ID b1)"
    using a ne by (simp add: Create_ok(5)[OF ok])
  then show "Create (fst (Create r b1)) b2 = (fst (Create r b1), Inl errConflict)"
    using c eq ne by (simp add: Create_def Let_def)
next
  fix b :: Book assume "ISBN b = None"
  then show "byISBN (fst (Create r b)) = byISBN r"
    by (simp add: Create_def)
next
  fix b :: Book assume "ISBN b = None"
  then show "snd (Create r b) = Inl errConflict \<longleftrightarrow> ID b = '''' \<or> byID r (ID b) \<noteq> None"
    by (simp add: Create_def)
next
  fix b :: Book assume "ISBN b = None"
  then show "snd (Create r b) = Inr b \<longleftrightarrow> ID b \<noteq> '''' \<and> byID r (ID b) = None"
    by (simp add: Create_def)
next
  fix b :: Book and s assume "ISBN b = Some s \<and> normalizeISBN s = ''''"
  then show "byISBN (fst (Create r b)) = byISBN r"
    by (simp add: Create_def Let_def)
next
  fix b :: Book and s assume "ISBN b = Some s \<and> normalizeISBN s = ''''"
  then show "snd (Create r b) = Inl errConflict \<longleftrightarrow> ID b = '''' \<or> byID r (ID b) \<noteq> None"
    by (simp add: Create_def Let_def)
next
  fix b :: Book and s assume "ISBN b = Some s \<and> normalizeISBN s = ''''"
  then show "snd (Create r b) = Inr b \<longleftrightarrow> ID b \<noteq> '''' \<and> byID r (ID b) = None"
    by (simp add: Create_def Let_def)
next
  fix b :: Book and s assume h: "ISBN b = Some s \<and> normalizeISBN s = ''''"
  have "byISBN r '''' = None"
    by (rule index_inv_empty_key[OF reachable_index_inv[OF assms]])
  with h show "GetByISBN r s = Inl errNotFound"
    by (simp add: GetByISBN_def Let_def)
next
  show "byISBN r '''' = None"
    by (rule index_inv_empty_key[OF reachable_index_inv[OF assms]])
next
  fix k i assume "byISBN r k = Some i"
  then show "\<exists>b s. byID r i = Some b \<and> ISBN b = Some s \<and> normalizeISBN s = k"
    by (rule index_inv_back[OF reachable_index_inv[OF assms]])
next
  fix i j and b b' :: Book and a c
  assume h: "byID r i = Some b \<and> byID r j = Some b' \<and> ISBN b = Some a \<and> ISBN b' = Some c \<and>
            normalizeISBN a = normalizeISBN c \<and> normalizeISBN a \<noteq> ''''"
  note inv = reachable_index_inv[OF assms]
  from h have bi: "byID r i = Some b" and bj: "byID r j = Some b'" by blast+
  from h have ia: "ISBN b = Some a" and ic: "ISBN b' = Some c" by blast+
  from h have eq: "normalizeISBN c = normalizeISBN a" by simp
  from h have ne: "normalizeISBN a \<noteq> ''''" by blast
  have 1: "byISBN r (normalizeISBN a) = Some i"
    by (rule index_inv_idx[OF inv bi ia ne])
  have 2: "byISBN r (normalizeISBN c) = Some j"
    using index_inv_idx[OF inv bj ic] ne eq by simp
  from 1 2 eq show "i = j" by simp
  with bi bj show "b = b'" by simp
qed

text \<open>The test \<open>TestDuplicateISBN\<close>, from the theorem.\<close>

theorem Create_isbn_unique_witness:
  "Create (fst (Create NewBookRepo
       (zeroBook\<lparr>ID := ''b1'', Title := ''A'', ISBN := Some ''978-1-23-000000-0''\<rparr>)))
     (zeroBook\<lparr>ID := ''b2'', Title := ''B'', ISBN := Some ''9781230000000''\<rparr>)
   = (fst (Create NewBookRepo
       (zeroBook\<lparr>ID := ''b1'', Title := ''A'', ISBN := Some ''978-1-23-000000-0''\<rparr>)),
      Inl errConflict)"
proof -
  let ?b1 = "zeroBook\<lparr>ID := ''b1'', Title := ''A'', ISBN := Some ''978-1-23-000000-0''\<rparr>"
  let ?b2 = "zeroBook\<lparr>ID := ''b2'', Title := ''B'', ISBN := Some ''9781230000000''\<rparr>"
  have h: "ISBN ?b1 = Some ''978-1-23-000000-0'' \<and> ISBN ?b2 = Some ''9781230000000'' \<and>
      normalizeISBN ''978-1-23-000000-0'' = normalizeISBN ''9781230000000'' \<and>
      normalizeISBN ''978-1-23-000000-0'' \<noteq> '''' \<and> snd (Create NewBookRepo ?b1) = Inr ?b1"
    by (simp add: Create_def NewBookRepo_def zeroBook_def normalizeISBN_def)
  from Create_isbn_unique[OF reachable.init] have
    "\<forall>b1 b2 a c.
        ISBN b1 = Some a \<and> ISBN b2 = Some c \<and> normalizeISBN a = normalizeISBN c \<and>
        normalizeISBN a \<noteq> '''' \<and> snd (Create NewBookRepo b1) = Inr b1
        \<longrightarrow> Create (fst (Create NewBookRepo b1)) b2 = (fst (Create NewBookRepo b1), Inl errConflict)"
    by (rule conjunct1)
  with h show ?thesis by blast
qed

text \<open>
  The ISBN strings \<open>"-"\<close> and \<open>" "\<close> both normalise to the empty string, and the two
  records are both created, no conflict: after the two calls the store holds two records
  of the same normalised ISBN, and its index is empty.
\<close>

theorem Create_empty_key_counterexample:
  "normalizeISBN ''-'' = normalizeISBN '' '' \<and>
   snd (Create NewBookRepo (zeroBook\<lparr>ID := ''b1'', ISBN := Some ''-''\<rparr>))
     = Inr (zeroBook\<lparr>ID := ''b1'', ISBN := Some ''-''\<rparr>) \<and>
   snd (Create (fst (Create NewBookRepo (zeroBook\<lparr>ID := ''b1'', ISBN := Some ''-''\<rparr>)))
          (zeroBook\<lparr>ID := ''b2'', ISBN := Some '' ''\<rparr>))
     = Inr (zeroBook\<lparr>ID := ''b2'', ISBN := Some '' ''\<rparr>) \<and>
   byID (fst (Create (fst (Create NewBookRepo (zeroBook\<lparr>ID := ''b1'', ISBN := Some ''-''\<rparr>)))
          (zeroBook\<lparr>ID := ''b2'', ISBN := Some '' ''\<rparr>))) ''b1''
     = Some (zeroBook\<lparr>ID := ''b1'', ISBN := Some ''-''\<rparr>) \<and>
   byID (fst (Create (fst (Create NewBookRepo (zeroBook\<lparr>ID := ''b1'', ISBN := Some ''-''\<rparr>)))
          (zeroBook\<lparr>ID := ''b2'', ISBN := Some '' ''\<rparr>))) ''b2''
     = Some (zeroBook\<lparr>ID := ''b2'', ISBN := Some '' ''\<rparr>) \<and>
   byISBN (fst (Create (fst (Create NewBookRepo (zeroBook\<lparr>ID := ''b1'', ISBN := Some ''-''\<rparr>)))
          (zeroBook\<lparr>ID := ''b2'', ISBN := Some '' ''\<rparr>))) = Map.empty"
  by (simp add: Create_def NewBookRepo_def zeroBook_def normalizeISBN_def)

subsection \<open>Deletion\<close>

text \<open>
  Claim C9. In every store, \<open>Delete\<close> fails with the store's not-found error exactly
  when no record is stored under the identifier, and then changes nothing. Otherwise it
  succeeds; the identifier is then unknown to \<open>GetByID\<close>; when the record had an ISBN,
  the index has no entry at its key and \<open>GetByISBN\<close> of that ISBN fails with not-found,
  and when it had none the index is as before; every other identifier maps to what it
  did, and so does every index key other than the record's own.
\<close>

theorem Delete_frame:
  "(snd (Delete r bid) = Inl errNotFound \<longleftrightarrow> byID r bid = None) \<and>
   (byID r bid = None \<longrightarrow> fst (Delete r bid) = r) \<and>
   (\<forall>b. byID r bid = Some b \<longrightarrow>
      snd (Delete r bid) = Inr () \<and>
      GetByID (fst (Delete r bid)) bid = Inl errNotFound \<and>
      (ISBN b = None \<longrightarrow> byISBN (fst (Delete r bid)) = byISBN r) \<and>
      (\<forall>s. ISBN b = Some s \<longrightarrow>
         byISBN (fst (Delete r bid)) (normalizeISBN s) = None \<and>
         GetByISBN (fst (Delete r bid)) s = Inl errNotFound) \<and>
      (\<forall>i. i \<noteq> bid \<longrightarrow> byID (fst (Delete r bid)) i = byID r i) \<and>
      (\<forall>k. (\<forall>s. ISBN b = Some s \<longrightarrow> k \<noteq> normalizeISBN s)
         \<longrightarrow> byISBN (fst (Delete r bid)) k = byISBN r k))"
proof (intro conjI allI impI)
  show "snd (Delete r bid) = Inl errNotFound \<longleftrightarrow> byID r bid = None"
    by (simp add: Delete_def Let_def split: option.splits)
next
  assume "byID r bid = None"
  then show "fst (Delete r bid) = r" by (simp add: Delete_def)
next
  fix b assume "byID r bid = Some b"
  then show "snd (Delete r bid) = Inr ()" by (simp add: Delete_def Let_def)
next
  fix b assume "byID r bid = Some b"
  then show "GetByID (fst (Delete r bid)) bid = Inl errNotFound"
    by (simp add: GetByID_def byID_Delete)
next
  fix b :: Book assume "byID r bid = Some b" "ISBN b = None"
  then show "byISBN (fst (Delete r bid)) = byISBN r" by (simp add: byISBN_Delete)
next
  fix b s assume "byID r bid = Some b" "ISBN b = Some s"
  then show "byISBN (fst (Delete r bid)) (normalizeISBN s) = None"
    by (simp add: byISBN_Delete)
next
  fix b s assume "byID r bid = Some b" "ISBN b = Some s"
  then show "GetByISBN (fst (Delete r bid)) s = Inl errNotFound"
    by (simp add: GetByISBN_def byISBN_Delete)
next
  fix b i assume "byID r bid = Some b" "i \<noteq> bid"
  then show "byID (fst (Delete r bid)) i = byID r i" by (simp add: byID_Delete)
next
  fix b k assume "byID r bid = Some b" "\<forall>s. ISBN b = Some s \<longrightarrow> k \<noteq> normalizeISBN s"
  then show "byISBN (fst (Delete r bid)) k = byISBN r k"
    by (cases "ISBN b") (simp_all add: byISBN_Delete)
qed


text \<open>The record of \<open>TestCreateAndGet\<close>, created and deleted; and a deletion in the empty store.\<close>

theorem Delete_frame_witness:
  "snd (Delete (fst (Create NewBookRepo
       (zeroBook\<lparr>ID := ''b1'', Title := ''T1'', ISBN := Some ''978-0-12-345678-9''\<rparr>))) ''b1'')
     = Inr () \<and>
   GetByID (fst (Delete (fst (Create NewBookRepo
       (zeroBook\<lparr>ID := ''b1'', Title := ''T1'', ISBN := Some ''978-0-12-345678-9''\<rparr>))) ''b1''))
     ''b1'' = Inl errNotFound \<and>
   GetByISBN (fst (Delete (fst (Create NewBookRepo
       (zeroBook\<lparr>ID := ''b1'', Title := ''T1'', ISBN := Some ''978-0-12-345678-9''\<rparr>))) ''b1''))
     ''978-0-12-345678-9'' = Inl errNotFound \<and>
   snd (Delete NewBookRepo ''b1'') = Inl errNotFound"
proof -
  let ?b = "zeroBook\<lparr>ID := ''b1'', Title := ''T1'', ISBN := Some ''978-0-12-345678-9''\<rparr>"
  let ?r = "fst (Create NewBookRepo ?b)"
  have stored: "byID ?r ''b1'' = Some ?b"
    by (simp add: Create_def NewBookRepo_def zeroBook_def normalizeISBN_def)
  have isbn: "ISBN ?b = Some ''978-0-12-345678-9''"
    by simp
  have absent: "byID NewBookRepo ''b1'' = None"
    by (simp add: NewBookRepo_def)
  note d = Delete_frame[of ?r "''b1''"]
  from d stored have 1: "snd (Delete ?r ''b1'') = Inr ()" by blast
  from d stored have 2: "GetByID (fst (Delete ?r ''b1'')) ''b1'' = Inl errNotFound" by blast
  from d stored isbn have 3:
    "GetByISBN (fst (Delete ?r ''b1'')) ''978-0-12-345678-9'' = Inl errNotFound" by blast
  from Delete_frame[of NewBookRepo "''b1''"] absent
  have 4: "snd (Delete NewBookRepo ''b1'') = Inl errNotFound" by blast
  from 1 2 3 4 show ?thesis by blast
qed

section \<open>Properties of the service\<close>

lemma CreateBook_invalid:
  "\<not> valid_as_specified inp \<Longrightarrow> CreateBook F u n1 n2 r inp = (r, Inl ErrValidation)"
  by (auto simp: CreateBook_def valid_as_specified_def split: option.splits)

lemma CreateBook_valid:
  "valid_as_specified inp \<Longrightarrow>
   CreateBook F u n1 n2 r inp =
     (case enrichStep F inp (construct u n1 n2 inp) of
        Inl err \<Rightarrow> (r, Inl err)
      | Inr b \<Rightarrow>
          if (case ISBN b of
                None \<Rightarrow> False
              | Some s \<Rightarrow> s \<noteq> '''' \<and> (case GetByISBN r s of Inl err \<Rightarrow> False | Inr found \<Rightarrow> True))
          then (r, Inl ErrConflict)
          else Create r b)"
  by (auto simp: CreateBook_def valid_as_specified_def split: option.splits)

lemma enrichStep_error: "enrichStep F inp b = Inl e \<Longrightarrow> e = ErrUpstream"
  by (auto simp: enrichStep_def Let_def split: option.splits if_splits sum.splits)

lemma CreateBook_valid_not_Validation:
  assumes "valid_as_specified inp"
  shows "snd (CreateBook F u n1 n2 r inp) \<noteq> Inl ErrValidation"
proof (cases "enrichStep F inp (construct u n1 n2 inp)")
  case (Inl e)
  with enrichStep_error[OF Inl] show ?thesis
    by (simp add: CreateBook_valid[OF assms])
next
  case (Inr b)
  have "snd (Create r b) \<noteq> Inl ErrValidation"
    using Create_result[of r b] by auto
  then show ?thesis
    by (simp add: CreateBook_valid[OF assms] Inr)
qed

subsection \<open>Validation\<close>

text \<open>
  Claim C5. \<open>CreateBook\<close> fails with the validation error exactly when the input breaks
  the validation rule of the specification (\<open>valid_as_specified\<close>), whatever the store,
  the enrichment client, the identifier and the clock; and then the store is left as it
  was: nothing is persisted.
\<close>

theorem CreateBook_validation:
  "(snd (CreateBook F u n1 n2 r inp) = Inl ErrValidation \<longleftrightarrow> \<not> valid_as_specified inp) \<and>
   (\<not> valid_as_specified inp \<longrightarrow> fst (CreateBook F u n1 n2 r inp) = r)"
  using CreateBook_valid_not_Validation[of inp F u n1 n2 r] CreateBook_invalid[of inp F u n1 n2 r]
  by (cases "valid_as_specified inp") simp_all


text \<open>A page count of 0 is refused and the store stays empty; a title alone passes.\<close>

theorem CreateBook_validation_witness:
  "snd (CreateBook (mockEnrich False) ''id-1'' 1 2 NewBookRepo
          (zeroInput\<lparr>CreateBookInput.Title := Some ''T'', CreateBookInput.PageCount := Some 0\<rparr>))
     = Inl ErrValidation \<and>
   fst (CreateBook (mockEnrich False) ''id-1'' 1 2 NewBookRepo
          (zeroInput\<lparr>CreateBookInput.Title := Some ''T'', CreateBookInput.PageCount := Some 0\<rparr>))
     = NewBookRepo \<and>
   snd (CreateBook (mockEnrich False) ''id-1'' 1 2 NewBookRepo
          (zeroInput\<lparr>CreateBookInput.Title := Some ''My Book''\<rparr>))
     \<noteq> Inl ErrValidation"
proof -
  have bad: "\<not> valid_as_specified
      (zeroInput\<lparr>CreateBookInput.Title := Some ''T'', CreateBookInput.PageCount := Some 0\<rparr>)"
    by (simp add: valid_as_specified_def zeroInput_def)
  have good: "valid_as_specified (zeroInput\<lparr>CreateBookInput.Title := Some ''My Book''\<rparr>)"
    by (simp add: valid_as_specified_def zeroInput_def)
  from bad good
    CreateBook_validation[of "mockEnrich False" "''id-1''" 1 2 NewBookRepo
      "zeroInput\<lparr>CreateBookInput.Title := Some ''T'', CreateBookInput.PageCount := Some 0\<rparr>"]
    CreateBook_validation[of "mockEnrich False" "''id-1''" 1 2 NewBookRepo
      "zeroInput\<lparr>CreateBookInput.Title := Some ''My Book''\<rparr>"]
  show ?thesis by blast
qed

subsection \<open>The merge\<close>

lemma merge_eq:
  "merge dst e =
     dst\<lparr>Title := (case EnrichedBook.Title e of
                      None \<Rightarrow> Title dst
                    | Some t \<Rightarrow> if Title dst = '''' then t else Title dst),
         Subtitle := (if Subtitle dst = None \<and> EnrichedBook.Subtitle e \<noteq> None
                      then EnrichedBook.Subtitle e else Subtitle dst),
         PublishedYear := (if PublishedYear dst = None \<and> EnrichedBook.PublishedYear e \<noteq> None
                      then EnrichedBook.PublishedYear e else PublishedYear dst),
         PageCount := (if PageCount dst = None \<and> EnrichedBook.PageCount e \<noteq> None
                      then EnrichedBook.PageCount e else PageCount dst),
         CoverURL := (if CoverURL dst = None \<and> EnrichedBook.CoverURL e \<noteq> None
                      then EnrichedBook.CoverURL e else CoverURL dst),
         Authors := (if length (Authors dst) = 0 \<and> length (EnrichedBook.Authors e) > 0
                      then [] @ EnrichedBook.Authors e else Authors dst)\<rparr>"
proof -
  define d1 where "d1 = (case EnrichedBook.Title e of
              None \<Rightarrow> dst
            | Some t \<Rightarrow> if Title dst = '''' then dst\<lparr>Title := t\<rparr> else dst)"
  define d2 where "d2 = (if Subtitle d1 = None \<and> EnrichedBook.Subtitle e \<noteq> None
                then d1\<lparr>Subtitle := EnrichedBook.Subtitle e\<rparr> else d1)"
  define d3 where "d3 = (if PublishedYear d2 = None \<and> EnrichedBook.PublishedYear e \<noteq> None
                then d2\<lparr>PublishedYear := EnrichedBook.PublishedYear e\<rparr> else d2)"
  define d4 where "d4 = (if PageCount d3 = None \<and> EnrichedBook.PageCount e \<noteq> None
                then d3\<lparr>PageCount := EnrichedBook.PageCount e\<rparr> else d3)"
  define d5 where "d5 = (if CoverURL d4 = None \<and> EnrichedBook.CoverURL e \<noteq> None
                then d4\<lparr>CoverURL := EnrichedBook.CoverURL e\<rparr> else d4)"
  define d6 where "d6 = (if length (Authors d5) = 0 \<and> length (EnrichedBook.Authors e) > 0
         then d5\<lparr>Authors := [] @ EnrichedBook.Authors e\<rparr> else d5)"
  have m: "merge dst e = d6"
    by (simp only: merge_def Let_def d1_def d2_def d3_def d4_def d5_def d6_def)
  have 1: "d1 = dst\<lparr>Title := (case EnrichedBook.Title e of
                      None \<Rightarrow> Title dst
                    | Some t \<Rightarrow> if Title dst = '''' then t else Title dst)\<rparr>"
    unfolding d1_def by (cases "EnrichedBook.Title e") simp_all
  have 2: "d2 = d1\<lparr>Subtitle := (if Subtitle dst = None \<and> EnrichedBook.Subtitle e \<noteq> None
                      then EnrichedBook.Subtitle e else Subtitle dst)\<rparr>"
    unfolding d2_def by (simp add: 1)
  have 3: "d3 = d2\<lparr>PublishedYear := (if PublishedYear dst = None \<and> EnrichedBook.PublishedYear e \<noteq> None
                      then EnrichedBook.PublishedYear e else PublishedYear dst)\<rparr>"
    unfolding d3_def by (simp add: 1 2)
  have 4: "d4 = d3\<lparr>PageCount := (if PageCount dst = None \<and> EnrichedBook.PageCount e \<noteq> None
                      then EnrichedBook.PageCount e else PageCount dst)\<rparr>"
    unfolding d4_def by (simp add: 1 2 3)
  have 5: "d5 = d4\<lparr>CoverURL := (if CoverURL dst = None \<and> EnrichedBook.CoverURL e \<noteq> None
                      then EnrichedBook.CoverURL e else CoverURL dst)\<rparr>"
    unfolding d5_def by (simp add: 1 2 3 4)
  have 6: "d6 = d5\<lparr>Authors := (if length (Authors dst) = 0 \<and> length (EnrichedBook.Authors e) > 0
                      then [] @ EnrichedBook.Authors e else Authors dst)\<rparr>"
    unfolding d6_def by (simp add: 1 2 3 4 5)
  show ?thesis
    unfolding m 6 5 4 3 2 1 by (rule refl)
qed


lemma merge_Title:
  "Title (merge dst e) =
     (if Title dst = '''' then (case EnrichedBook.Title e of None \<Rightarrow> '''' | Some t \<Rightarrow> t)
      else Title dst)"
  by (simp add: merge_eq split del: if_split) (auto split: option.splits)

lemma merge_Subtitle:
  "Subtitle (merge dst e) =
     (if Subtitle dst = None then EnrichedBook.Subtitle e else Subtitle dst)"
  by (simp add: merge_eq split del: if_split) auto

lemma merge_PublishedYear:
  "PublishedYear (merge dst e) =
     (if PublishedYear dst = None then EnrichedBook.PublishedYear e else PublishedYear dst)"
  by (simp add: merge_eq split del: if_split) auto

lemma merge_PageCount:
  "PageCount (merge dst e) =
     (if PageCount dst = None then EnrichedBook.PageCount e else PageCount dst)"
  by (simp add: merge_eq split del: if_split) auto

lemma merge_CoverURL:
  "CoverURL (merge dst e) =
     (if CoverURL dst = None then EnrichedBook.CoverURL e else CoverURL dst)"
  by (simp add: merge_eq split del: if_split) auto

lemma merge_Authors:
  "Authors (merge dst e) = (if Authors dst = [] then EnrichedBook.Authors e else Authors dst)"
  by (simp add: merge_eq split del: if_split) auto

lemma merge_frame:
  "ID (merge dst e) = ID dst" "ISBN (merge dst e) = ISBN dst" "Tags (merge dst e) = Tags dst"
  "Enrichment (merge dst e) = Enrichment dst" "CreatedAt (merge dst e) = CreatedAt dst"
  "UpdatedAt (merge dst e) = UpdatedAt dst"
  by (simp_all add: merge_eq split del: if_split)

lemma merge_Enrichment_update:
  "merge (dst\<lparr>Enrichment := m\<rparr>) e = (merge dst e)\<lparr>Enrichment := m\<rparr>"
  by (simp add: merge_eq split del: if_split cong del: if_weak_cong option.case_cong_weak)

lemma enrichStep_hit:
  assumes "Enrich inp" "CreateBookInput.ISBN inp = Some s" "s \<noteq> ''''" "F s = Inr e"
  shows "enrichStep F inp dst =
     Inr ((merge dst e)\<lparr>Enrichment := \<lparr>Attempted = True, Source = ''openlibrary'',
            Status = EnrichmentOK, LookedUpISBN = s\<rparr>\<rparr>)"
  using assms by (simp add: enrichStep_def Let_def merge_Enrichment_update)

lemma enrichStep_miss:
  assumes "Enrich inp" "CreateBookInput.ISBN inp = Some s" "s \<noteq> ''''" "F s = Inl err"
  shows "enrichStep F inp dst =
     (if RequireEnrichment inp then Inl ErrUpstream
      else Inr (dst\<lparr>Enrichment := \<lparr>Attempted = True, Source = ''openlibrary'',
            Status = EnrichmentPartial, LookedUpISBN = s\<rparr>\<rparr>))"
  using assms by (simp add: enrichStep_def Let_def)

lemma enrichStep_skip:
  assumes "\<not> Enrich inp \<or> CreateBookInput.ISBN inp = None \<or> CreateBookInput.ISBN inp = Some ''''"
  shows "enrichStep F inp dst = Inr dst"
  using assms by (auto simp: enrichStep_def Let_def split: option.splits)

lemma GetByISBN_absent: "byISBN r (normalizeISBN s) = None \<Longrightarrow> GetByISBN r s = Inl errNotFound"
  by (simp add: GetByISBN_def)

lemma Create_fresh:
  assumes "ID b \<noteq> ''''" "byID r (ID b) = None"
    and "\<And>s. ISBN b = Some s \<Longrightarrow> byISBN r (normalizeISBN s) = None"
  shows "Create r b =
     (r\<lparr>byISBN := (case ISBN b of
            None \<Rightarrow> byISBN r
          | Some s \<Rightarrow> if normalizeISBN s \<noteq> '''' then (byISBN r)(normalizeISBN s \<mapsto> ID b)
              else byISBN r),
        byID := (byID r)(ID b \<mapsto> b)\<rparr>, Inr b)"
  using assms by (cases "ISBN b") (simp_all add: Create_def Let_def)

lemma CreateBook_stores:
  assumes valid: "valid_as_specified inp"
    and step: "enrichStep F inp (construct u n1 n2 inp) = Inr b"
    and idb: "ID b = u" and isbn: "ISBN b = CreateBookInput.ISBN inp"
    and fresh: "u \<noteq> ''''" "byID r u = None"
    and free: "\<And>s. CreateBookInput.ISBN inp = Some s \<Longrightarrow> byISBN r (normalizeISBN s) = None"
  shows "CreateBook F u n1 n2 r inp = Create r b"
    and "snd (CreateBook F u n1 n2 r inp) = Inr b"
    and "byID (fst (CreateBook F u n1 n2 r inp)) = (byID r)(u \<mapsto> b)"
    and "GetByID (fst (CreateBook F u n1 n2 r inp)) u = Inr b"
proof -
  have pre: "\<not> (case ISBN b of
                None \<Rightarrow> False
              | Some s \<Rightarrow> s \<noteq> [] \<and> (case GetByISBN r s of Inl err \<Rightarrow> False | Inr found \<Rightarrow> True))"
  proof (cases "CreateBookInput.ISBN inp")
    case None
    then show ?thesis by (simp add: isbn)
  next
    case (Some s)
    from GetByISBN_absent[OF free[OF Some]] show ?thesis by (simp add: isbn Some)
  qed
  show eq: "CreateBook F u n1 n2 r inp = Create r b"
    using pre by (simp add: CreateBook_valid[OF valid] step)
  have c: "Create r b =
     (r\<lparr>byISBN := (case ISBN b of
            None \<Rightarrow> byISBN r
          | Some s \<Rightarrow> if normalizeISBN s \<noteq> '''' then (byISBN r)(normalizeISBN s \<mapsto> ID b)
              else byISBN r),
        byID := (byID r)(ID b \<mapsto> b)\<rparr>, Inr b)"
  proof (rule Create_fresh)
    show "ID b \<noteq> []" using idb fresh by simp
    show "byID r (ID b) = None" using idb fresh by simp
    show "\<And>s. ISBN b = Some s \<Longrightarrow> byISBN r (normalizeISBN s) = None"
      using free isbn by simp
  qed
  show "snd (CreateBook F u n1 n2 r inp) = Inr b" by (simp add: eq c)
  show "byID (fst (CreateBook F u n1 n2 r inp)) = (byID r)(u \<mapsto> b)" by (simp add: eq c idb)
  show "GetByID (fst (CreateBook F u n1 n2 r inp)) u = Inr b"
    by (simp add: eq c idb GetByID_def)
qed

text \<open>
  Claim C6. \<open>merge\<close> fills a field from the enrichment result only where the record has
  none: the title when it is the empty string, subtitle, published year, page count and
  cover URL when absent, the authors when the list is empty; every other field is kept,
  so a non-empty title is never replaced. When the lookup is made and succeeds, the
  enrichment step returns the merged record with status \<open>ok\<close>, attempted, the source and
  the looked-up ISBN set; and for a valid input, a fresh identifier and an ISBN not yet
  indexed, \<open>CreateBook\<close> returns and stores exactly that record.
\<close>

theorem merge_caller_wins:
  "Title (merge dst e) =
     (if Title dst = '''' then (case EnrichedBook.Title e of None \<Rightarrow> '''' | Some t \<Rightarrow> t)
      else Title dst) \<and>
   Subtitle (merge dst e) =
     (if Subtitle dst = None then EnrichedBook.Subtitle e else Subtitle dst) \<and>
   PublishedYear (merge dst e) =
     (if PublishedYear dst = None then EnrichedBook.PublishedYear e else PublishedYear dst) \<and>
   PageCount (merge dst e) =
     (if PageCount dst = None then EnrichedBook.PageCount e else PageCount dst) \<and>
   CoverURL (merge dst e) =
     (if CoverURL dst = None then EnrichedBook.CoverURL e else CoverURL dst) \<and>
   Authors (merge dst e) =
     (if Authors dst = [] then EnrichedBook.Authors e else Authors dst) \<and>
   ID (merge dst e) = ID dst \<and> ISBN (merge dst e) = ISBN dst \<and> Tags (merge dst e) = Tags dst \<and>
   CreatedAt (merge dst e) = CreatedAt dst \<and> UpdatedAt (merge dst e) = UpdatedAt dst \<and>
   (Title dst \<noteq> '''' \<longrightarrow> Title (merge dst e) = Title dst) \<and>
   (Enrich inp \<and> CreateBookInput.ISBN inp = Some s \<and> s \<noteq> '''' \<and> F s = Inr e \<longrightarrow>
      enrichStep F inp dst =
        Inr ((merge dst e)\<lparr>Enrichment := \<lparr>Attempted = True, Source = ''openlibrary'',
               Status = EnrichmentOK, LookedUpISBN = s\<rparr>\<rparr>)) \<and>
   (Enrich inp \<and> CreateBookInput.ISBN inp = Some s \<and> s \<noteq> '''' \<and> F s = Inr e \<and>
    valid_as_specified inp \<and> u \<noteq> '''' \<and> byID r u = None \<and>
    byISBN r (normalizeISBN s) = None \<longrightarrow>
      snd (CreateBook F u n1 n2 r inp) =
        Inr ((merge (construct u n1 n2 inp) e)\<lparr>Enrichment := \<lparr>Attempted = True,
               Source = ''openlibrary'', Status = EnrichmentOK, LookedUpISBN = s\<rparr>\<rparr>) \<and>
      GetByID (fst (CreateBook F u n1 n2 r inp)) u =
        Inr ((merge (construct u n1 n2 inp) e)\<lparr>Enrichment := \<lparr>Attempted = True,
               Source = ''openlibrary'', Status = EnrichmentOK, LookedUpISBN = s\<rparr>\<rparr>))"
proof -
  have step: "Enrich inp \<and> CreateBookInput.ISBN inp = Some s \<and> s \<noteq> '''' \<and> F s = Inr e \<longrightarrow>
      enrichStep F inp dst =
        Inr ((merge dst e)\<lparr>Enrichment := \<lparr>Attempted = True, Source = ''openlibrary'',
               Status = EnrichmentOK, LookedUpISBN = s\<rparr>\<rparr>)"
    using enrichStep_hit[of inp s F e dst] by blast
  have stored: "Enrich inp \<and> CreateBookInput.ISBN inp = Some s \<and> s \<noteq> '''' \<and> F s = Inr e \<and>
    valid_as_specified inp \<and> u \<noteq> '''' \<and> byID r u = None \<and>
    byISBN r (normalizeISBN s) = None \<longrightarrow>
      snd (CreateBook F u n1 n2 r inp) =
        Inr ((merge (construct u n1 n2 inp) e)\<lparr>Enrichment := \<lparr>Attempted = True,
               Source = ''openlibrary'', Status = EnrichmentOK, LookedUpISBN = s\<rparr>\<rparr>) \<and>
      GetByID (fst (CreateBook F u n1 n2 r inp)) u =
        Inr ((merge (construct u n1 n2 inp) e)\<lparr>Enrichment := \<lparr>Attempted = True,
               Source = ''openlibrary'', Status = EnrichmentOK, LookedUpISBN = s\<rparr>\<rparr>)"
  proof
    let ?b = "(merge (construct u n1 n2 inp) e)\<lparr>Enrichment := \<lparr>Attempted = True,
               Source = ''openlibrary'', Status = EnrichmentOK, LookedUpISBN = s\<rparr>\<rparr>"
    assume h: "Enrich inp \<and> CreateBookInput.ISBN inp = Some s \<and> s \<noteq> '''' \<and> F s = Inr e \<and>
      valid_as_specified inp \<and> u \<noteq> '''' \<and> byID r u = None \<and>
      byISBN r (normalizeISBN s) = None"
    then have h1: "Enrich inp" "CreateBookInput.ISBN inp = Some s" "s \<noteq> ''''" "F s = Inr e"
      and valid: "valid_as_specified inp" and fresh: "u \<noteq> ''''" "byID r u = None"
      and free: "byISBN r (normalizeISBN s) = None"
      by blast+
    have st: "enrichStep F inp (construct u n1 n2 inp) = Inr ?b"
      using h1 by (rule enrichStep_hit[of inp s F e])
    have idb: "ID ?b = u" by (simp add: merge_frame construct_def)
    have isbn: "ISBN ?b = CreateBookInput.ISBN inp" by (simp add: merge_frame construct_def)
    have fr: "\<And>s'. CreateBookInput.ISBN inp = Some s' \<Longrightarrow> byISBN r (normalizeISBN s') = None"
      using h1(2) free by simp
    from CreateBook_stores(2)[OF valid st idb isbn fresh fr]
      CreateBook_stores(4)[OF valid st idb isbn fresh fr]
    show "snd (CreateBook F u n1 n2 r inp) = Inr ?b \<and>
      GetByID (fst (CreateBook F u n1 n2 r inp)) u = Inr ?b" by simp
  qed
  have keep: "Title dst \<noteq> '''' \<longrightarrow> Title (merge dst e) = Title dst"
    by (simp add: merge_Title)
  from merge_Title[of dst e] merge_Subtitle[of dst e] merge_PublishedYear[of dst e]
    merge_PageCount[of dst e] merge_CoverURL[of dst e] merge_Authors[of dst e]
    merge_frame[of dst e] keep step stored
  show ?thesis by blast
qed

text \<open>
  The title \<open>Fallback Title\<close> of the caller against the hit of the tests' client: the
  title stays, year, page count and authors are filled, the status is \<open>ok\<close>.
\<close>

theorem merge_caller_wins_witness:
  "Title (merge (construct ''id-1'' 1 2
       (zeroInput\<lparr>CreateBookInput.ISBN := Some ''9780134494166'',
          CreateBookInput.Title := Some ''Fallback Title'', Enrich := True\<rparr>))
     \<lparr>EnrichedBook.Title = Some ''Clean Architecture'', EnrichedBook.Subtitle = None,
      EnrichedBook.PublishedYear = Some 2017, EnrichedBook.PageCount = Some 432,
      EnrichedBook.CoverURL = None, EnrichedBook.Authors = [''Robert C. Martin'']\<rparr>)
     = ''Fallback Title'' \<and>
   snd (CreateBook (mockEnrich True) ''id-1'' 1 2 NewBookRepo
       (zeroInput\<lparr>CreateBookInput.ISBN := Some ''9780134494166'',
          CreateBookInput.Title := Some ''Fallback Title'', Enrich := True\<rparr>))
     = Inr \<lparr>ID = ''id-1'', ISBN = Some ''9780134494166'', Title = ''Fallback Title'',
          Subtitle = None, PublishedYear = Some 2017, PageCount = Some 432, CoverURL = None,
          Tags = [], Authors = [''Robert C. Martin''],
          Enrichment = \<lparr>Attempted = True, Source = ''openlibrary'', Status = EnrichmentOK,
            LookedUpISBN = ''9780134494166''\<rparr>,
          CreatedAt = 1, UpdatedAt = 2\<rparr>"
proof -
  let ?inp = "zeroInput\<lparr>CreateBookInput.ISBN := Some ''9780134494166'',
          CreateBookInput.Title := Some ''Fallback Title'', Enrich := True\<rparr>"
  let ?e = "\<lparr>EnrichedBook.Title = Some ''Clean Architecture'', EnrichedBook.Subtitle = None,
      EnrichedBook.PublishedYear = Some 2017, EnrichedBook.PageCount = Some 432,
      EnrichedBook.CoverURL = None, EnrichedBook.Authors = [''Robert C. Martin'']\<rparr>"
  note th = merge_caller_wins[of "construct ''id-1'' 1 2 ?inp" ?e ?inp "''9780134494166''"
      "mockEnrich True" "''id-1''" NewBookRepo 1 2]
  have pre: "Enrich ?inp \<and> CreateBookInput.ISBN ?inp = Some ''9780134494166'' \<and>
      ''9780134494166'' \<noteq> '''' \<and> mockEnrich True ''9780134494166'' = Inr ?e \<and>
      valid_as_specified ?inp \<and> ''id-1'' \<noteq> '''' \<and> byID NewBookRepo ''id-1'' = None \<and>
      byISBN NewBookRepo (normalizeISBN ''9780134494166'') = None"
    by (simp add: zeroInput_def mockEnrich_def valid_as_specified_def NewBookRepo_def)
  have named: "Title (construct ''id-1'' 1 2 ?inp) \<noteq> ''''"
    by (simp add: construct_def zeroInput_def valueOr_def)
  from th named have 1: "Title (merge (construct ''id-1'' 1 2 ?inp) ?e)
      = Title (construct ''id-1'' 1 2 ?inp)"
    by blast
  from th pre have 2: "snd (CreateBook (mockEnrich True) ''id-1'' 1 2 NewBookRepo ?inp) =
        Inr ((merge (construct ''id-1'' 1 2 ?inp) ?e)\<lparr>Enrichment := \<lparr>Attempted = True,
               Source = ''openlibrary'', Status = EnrichmentOK,
               LookedUpISBN = ''9780134494166''\<rparr>\<rparr>)"
    by blast
  have c: "construct ''id-1'' 1 2 ?inp =
      \<lparr>ID = ''id-1'', ISBN = Some ''9780134494166'', Title = ''Fallback Title'',
          Subtitle = None, PublishedYear = None, PageCount = None, CoverURL = None,
          Tags = [], Authors = [],
          Enrichment = \<lparr>Attempted = False, Source = '''', Status = EnrichmentNotRequested,
            LookedUpISBN = ''''\<rparr>,
          CreatedAt = 1, UpdatedAt = 2\<rparr>"
    by (simp add: construct_def zeroInput_def valueOr_def)
  show ?thesis
    unfolding 1 2 unfolding c by (simp add: merge_def)
qed

lemma CreateBook_error_keeps_store:
  "snd (CreateBook F u n1 n2 r inp) = Inl err \<Longrightarrow> fst (CreateBook F u n1 n2 r inp) = r"
proof (cases "valid_as_specified inp")
  case False
  then show ?thesis by (simp add: CreateBook_invalid)
next
  case True
  assume e: "snd (CreateBook F u n1 n2 r inp) = Inl err"
  show ?thesis
  proof (cases "enrichStep F inp (construct u n1 n2 inp)")
    case (Inl x)
    then show ?thesis by (simp add: CreateBook_valid[OF True])
  next
    case (Inr b)
    show ?thesis
    proof (cases "case ISBN b of
                None \<Rightarrow> False
              | Some s \<Rightarrow> s \<noteq> '''' \<and> (case GetByISBN r s of Inl err \<Rightarrow> False | Inr found \<Rightarrow> True)")
      case True
      with Inr show ?thesis by (simp add: CreateBook_valid[OF \<open>valid_as_specified inp\<close>])
    next
      case False
      with Inr have eq: "CreateBook F u n1 n2 r inp = Create r b"
        by (simp add: CreateBook_valid[OF \<open>valid_as_specified inp\<close>])
      with e have "snd (Create r b) = Inl err" by simp
      from Create_fail[OF this] eq show ?thesis by simp
    qed
  qed
qed

subsection \<open>Failure of the lookup\<close>

text \<open>
  \<open>CreateBook\<close> calls the client in its enrichment step only, which it reaches when the
  input has passed validation, that is (\<open>CreateBook_invalid\<close>, \<open>CreateBook_valid\<close>) when
  \<open>valid_as_specified\<close> holds. So "the lookup fails" is: the input is valid, enrichment is
  requested, the ISBN is present and non-empty, and the client \<open>F\<close> answers that ISBN with
  an error.
\<close>

text \<open>
  Claim C7. With enrichment requested and required, an ISBN present and non-empty and a
  client that fails on it: whenever the lookup is made (the input is valid) \<open>CreateBook\<close>
  returns the upstream error; and nothing is persisted, the store is left as it was, so
  \<open>GetBook\<close> and \<open>List\<close> answer afterwards as they did before. (When the input is not
  valid no lookup is made: the call ends with the validation error, the store unchanged as
  well.)
\<close>

theorem CreateBook_required_enrichment_fails:
  assumes "Enrich inp" and "RequireEnrichment inp"
    and "CreateBookInput.ISBN inp = Some s" and "s \<noteq> ''''" and "F s = Inl err"
  shows "fst (CreateBook F u n1 n2 r inp) = r \<and>
     (valid_as_specified inp \<longrightarrow> snd (CreateBook F u n1 n2 r inp) = Inl ErrUpstream) \<and>
     (\<not> valid_as_specified inp \<longrightarrow> snd (CreateBook F u n1 n2 r inp) = Inl ErrValidation) \<and>
     GetBook (fst (CreateBook F u n1 n2 r inp)) i = GetBook r i \<and>
     List (fst (CreateBook F u n1 n2 r inp)) ks q = List r ks q"
proof -
  have step: "enrichStep F inp (construct u n1 n2 inp) = Inl ErrUpstream"
    using assms by (simp add: enrichStep_miss[of inp s F err])
  have up: "valid_as_specified inp \<longrightarrow> snd (CreateBook F u n1 n2 r inp) = Inl ErrUpstream"
    by (simp add: CreateBook_valid step)
  have va: "\<not> valid_as_specified inp \<longrightarrow> snd (CreateBook F u n1 n2 r inp) = Inl ErrValidation"
    by (simp add: CreateBook_invalid)
  from up va have "\<exists>e. snd (CreateBook F u n1 n2 r inp) = Inl e" by blast
  then have same: "fst (CreateBook F u n1 n2 r inp) = r"
    using CreateBook_error_keeps_store by blast
  from same up va show ?thesis by simp
qed

text \<open>The test \<open>TestCreate_EnrichMiss_RequireTrue_Fails\<close>.\<close>

theorem CreateBook_required_enrichment_fails_witness:
  "CreateBook (mockEnrich False) ''id-1'' 1 2 NewBookRepo
       (zeroInput\<lparr>CreateBookInput.ISBN := Some ''9780134494166'', Enrich := True,
          RequireEnrichment := True\<rparr>)
     = (NewBookRepo, Inl ErrUpstream) \<and>
   GetBook (fst (CreateBook (mockEnrich False) ''id-1'' 1 2 NewBookRepo
       (zeroInput\<lparr>CreateBookInput.ISBN := Some ''9780134494166'', Enrich := True,
          RequireEnrichment := True\<rparr>))) ''id-1''
     = Inl ErrNotFound"
proof -
  let ?inp = "zeroInput\<lparr>CreateBookInput.ISBN := Some ''9780134494166'', Enrich := True,
          RequireEnrichment := True\<rparr>"
  have h: "Enrich ?inp" "RequireEnrichment ?inp"
    "CreateBookInput.ISBN ?inp = Some ''9780134494166''" "''9780134494166'' \<noteq> ''''"
    "mockEnrich False ''9780134494166'' = Inl ''miss''"
    by (simp_all add: zeroInput_def mockEnrich_def)
  have v: "valid_as_specified ?inp"
    by (simp add: valid_as_specified_def zeroInput_def)
  have g: "GetBook NewBookRepo ''id-1'' = Inl ErrNotFound"
    by (simp add: GetBook_def GetByID_def NewBookRepo_def)
  from h v g
    CreateBook_required_enrichment_fails[where inp = ?inp and s = "''9780134494166''"
      and F = "mockEnrich False" and err = "''miss''" and u = "''id-1''" and ?n1.0 = 1
      and ?n2.0 = 2 and r = NewBookRepo and i = "''id-1''"]
  show ?thesis by (simp add: prod_eq_iff)
qed

text \<open>
  Claim C8. With enrichment requested and not required, an ISBN present and non-empty,
  a lookup that is made and fails (the input is valid and the client fails on the ISBN),
  and no conflict (a fresh non-empty identifier, no index entry for the normalised ISBN):
  \<open>CreateBook\<close> succeeds, and returns and stores the record constructed from the input
  with the enrichment metadata attempted, source, status \<open>partial\<close> and the looked-up
  ISBN; its title is the caller's.
\<close>

theorem CreateBook_optional_enrichment_partial:
  assumes "Enrich inp" and "\<not> RequireEnrichment inp"
    and "CreateBookInput.ISBN inp = Some s" and "s \<noteq> ''''" and "F s = Inl err"
    and "valid_as_specified inp"
    and "u \<noteq> ''''" and "byID r u = None" and "byISBN r (normalizeISBN s) = None"
  shows "snd (CreateBook F u n1 n2 r inp) =
       Inr ((construct u n1 n2 inp)\<lparr>Enrichment := \<lparr>Attempted = True, Source = ''openlibrary'',
              Status = EnrichmentPartial, LookedUpISBN = s\<rparr>\<rparr>) \<and>
     GetByID (fst (CreateBook F u n1 n2 r inp)) u =
       Inr ((construct u n1 n2 inp)\<lparr>Enrichment := \<lparr>Attempted = True, Source = ''openlibrary'',
              Status = EnrichmentPartial, LookedUpISBN = s\<rparr>\<rparr>) \<and>
     Title (construct u n1 n2 inp) = valueOr (CreateBookInput.Title inp) '''' \<and>
     (\<forall>t. CreateBookInput.Title inp = Some t \<longrightarrow> Title (construct u n1 n2 inp) = t)"
proof -
  let ?b = "(construct u n1 n2 inp)\<lparr>Enrichment := \<lparr>Attempted = True, Source = ''openlibrary'',
              Status = EnrichmentPartial, LookedUpISBN = s\<rparr>\<rparr>"
  have st: "enrichStep F inp (construct u n1 n2 inp) = Inr ?b"
    using assms(1-5) by (simp add: enrichStep_miss[of inp s F err])
  have idb: "ID ?b = u" by (simp add: construct_def)
  have isbn: "ISBN ?b = CreateBookInput.ISBN inp" by (simp add: construct_def)
  have fr: "\<And>s'. CreateBookInput.ISBN inp = Some s' \<Longrightarrow> byISBN r (normalizeISBN s') = None"
    using assms(3,9) by simp
  note cs = CreateBook_stores[OF assms(6) st idb isbn assms(7,8) fr]
  have t: "Title (construct u n1 n2 inp) = valueOr (CreateBookInput.Title inp) ''''"
    by (simp add: construct_def)
  have t': "\<forall>t. CreateBookInput.Title inp = Some t \<longrightarrow> Title (construct u n1 n2 inp) = t"
    by (simp add: construct_def valueOr_def)
  from cs(2) cs(4) t t' show ?thesis by blast
qed

text \<open>The test \<open>TestCreate_EnrichMiss_RequireFalse_AllowsPartial\<close>.\<close>

theorem CreateBook_optional_enrichment_partial_witness:
  "snd (CreateBook (mockEnrich False) ''id-1'' 1 2 NewBookRepo
       (zeroInput\<lparr>CreateBookInput.ISBN := Some ''9780134494166'',
          CreateBookInput.Title := Some ''Fallback Title'', Enrich := True\<rparr>))
     = Inr \<lparr>ID = ''id-1'', ISBN = Some ''9780134494166'', Title = ''Fallback Title'',
          Subtitle = None, PublishedYear = None, PageCount = None, CoverURL = None,
          Tags = [], Authors = [],
          Enrichment = \<lparr>Attempted = True, Source = ''openlibrary'',
            Status = EnrichmentPartial, LookedUpISBN = ''9780134494166''\<rparr>,
          CreatedAt = 1, UpdatedAt = 2\<rparr>"
proof -
  let ?inp = "zeroInput\<lparr>CreateBookInput.ISBN := Some ''9780134494166'',
          CreateBookInput.Title := Some ''Fallback Title'', Enrich := True\<rparr>"
  have h: "Enrich ?inp" "\<not> RequireEnrichment ?inp"
    "CreateBookInput.ISBN ?inp = Some ''9780134494166''" "''9780134494166'' \<noteq> ''''"
    "mockEnrich False ''9780134494166'' = Inl ''miss''"
    "valid_as_specified ?inp"
    "''id-1'' \<noteq> ''''" "byID NewBookRepo ''id-1'' = None"
    "byISBN NewBookRepo (normalizeISBN ''9780134494166'') = None"
    by (simp_all add: zeroInput_def mockEnrich_def valid_as_specified_def NewBookRepo_def)
  have c: "construct ''id-1'' 1 2 ?inp =
      \<lparr>ID = ''id-1'', ISBN = Some ''9780134494166'', Title = ''Fallback Title'',
          Subtitle = None, PublishedYear = None, PageCount = None, CoverURL = None,
          Tags = [], Authors = [],
          Enrichment = \<lparr>Attempted = False, Source = '''', Status = EnrichmentNotRequested,
            LookedUpISBN = ''''\<rparr>,
          CreatedAt = 1, UpdatedAt = 2\<rparr>"
    by (simp add: construct_def zeroInput_def valueOr_def)
  from h
    CreateBook_optional_enrichment_partial[where inp = ?inp and s = "''9780134494166''"
      and F = "mockEnrich False" and err = "''miss''" and u = "''id-1''" and ?n1.0 = 1
      and ?n2.0 = 2 and r = NewBookRepo]
  have "snd (CreateBook (mockEnrich False) ''id-1'' 1 2 NewBookRepo ?inp) =
       Inr ((construct ''id-1'' 1 2 ?inp)\<lparr>Enrichment := \<lparr>Attempted = True,
              Source = ''openlibrary'', Status = EnrichmentPartial,
              LookedUpISBN = ''9780134494166''\<rparr>\<rparr>)"
    by blast
  then show ?thesis unfolding c by simp
qed

subsection \<open>An ISBN that is the empty string\<close>

text \<open>
  Claim C10, as the code has it. With enrichment requested and the ISBN present and
  empty: validation fails only for the page count or the published year (the title is
  not required); the enrichment step returns the record unchanged and the result does
  not depend on the enrichment client, which is never called; the enrichment metadata
  stays not attempted, \<open>not_requested\<close>; the title of the record is the caller's, the
  empty string when the caller gave none or an empty one; and with a valid input and a
  fresh non-empty identifier \<open>CreateBook\<close> succeeds, stores the record, and leaves the
  index untouched.
\<close>

theorem CreateBook_empty_isbn:
  assumes "Enrich inp" and "CreateBookInput.ISBN inp = Some ''''"
  shows "(snd (CreateBook F u n1 n2 r inp) = Inl ErrValidation \<longleftrightarrow>
        \<not> ((case CreateBookInput.PageCount inp of None \<Rightarrow> True | Some p \<Rightarrow> 1 \<le> p) \<and>
           (case CreateBookInput.PublishedYear inp of
              None \<Rightarrow> True
            | Some y \<Rightarrow> 1450 \<le> y \<and> y \<le> 3000))) \<and>
     enrichStep F inp (construct u n1 n2 inp) = Inr (construct u n1 n2 inp) \<and>
     CreateBook F u n1 n2 r inp = CreateBook G u n1 n2 r inp \<and>
     Enrichment (construct u n1 n2 inp) =
       \<lparr>Attempted = False, Source = '''', Status = EnrichmentNotRequested, LookedUpISBN = ''''\<rparr> \<and>
     Title (construct u n1 n2 inp) = valueOr (CreateBookInput.Title inp) '''' \<and>
     (CreateBookInput.Title inp = None \<or> CreateBookInput.Title inp = Some ''''
        \<longrightarrow> Title (construct u n1 n2 inp) = '''') \<and>
     (valid_as_specified inp \<and> u \<noteq> '''' \<and> byID r u = None \<longrightarrow>
        snd (CreateBook F u n1 n2 r inp) = Inr (construct u n1 n2 inp) \<and>
        GetByID (fst (CreateBook F u n1 n2 r inp)) u = Inr (construct u n1 n2 inp) \<and>
        byISBN (fst (CreateBook F u n1 n2 r inp)) = byISBN r)"
proof -
  let ?b = "construct u n1 n2 inp"
  have v: "valid_as_specified inp \<longleftrightarrow>
        ((case CreateBookInput.PageCount inp of None \<Rightarrow> True | Some p \<Rightarrow> 1 \<le> p) \<and>
           (case CreateBookInput.PublishedYear inp of
              None \<Rightarrow> True
            | Some y \<Rightarrow> 1450 \<le> y \<and> y \<le> 3000))"
    using assms by (simp add: valid_as_specified_def)
  have 1: "snd (CreateBook F u n1 n2 r inp) = Inl ErrValidation \<longleftrightarrow> \<not> valid_as_specified inp"
    using CreateBook_valid_not_Validation[of inp F u n1 n2 r] CreateBook_invalid[of inp F u n1 n2 r]
    by (cases "valid_as_specified inp") simp_all
  have skip: "\<And>H. enrichStep H inp ?b = Inr ?b"
    using assms by (simp add: enrichStep_skip)
  have isb: "ISBN ?b = Some ''''" using assms by (simp add: construct_def)
  have same: "CreateBook F u n1 n2 r inp = CreateBook G u n1 n2 r inp"
  proof (cases "valid_as_specified inp")
    case True
    show ?thesis by (simp add: CreateBook_valid[OF True] skip)
  next
    case False
    then show ?thesis by (simp add: CreateBook_invalid)
  qed
  have meta: "Enrichment ?b =
       \<lparr>Attempted = False, Source = '''', Status = EnrichmentNotRequested, LookedUpISBN = ''''\<rparr>"
    by (simp add: construct_def)
  have t: "Title ?b = valueOr (CreateBookInput.Title inp) ''''"
    by (simp add: construct_def)
  have t0: "CreateBookInput.Title inp = None \<or> CreateBookInput.Title inp = Some ''''
        \<longrightarrow> Title ?b = ''''"
    by (auto simp: construct_def valueOr_def)
  have ok: "valid_as_specified inp \<and> u \<noteq> '''' \<and> byID r u = None \<longrightarrow>
        snd (CreateBook F u n1 n2 r inp) = Inr ?b \<and>
        GetByID (fst (CreateBook F u n1 n2 r inp)) u = Inr ?b \<and>
        byISBN (fst (CreateBook F u n1 n2 r inp)) = byISBN r"
  proof
    assume h: "valid_as_specified inp \<and> u \<noteq> '''' \<and> byID r u = None"
    then have valid: "valid_as_specified inp" and fresh: "u \<noteq> ''''" "byID r u = None"
      by blast+
    have idb: "ID ?b = u" by (simp add: construct_def)
    have eq: "CreateBook F u n1 n2 r inp = Create r ?b"
      by (simp add: CreateBook_valid[OF valid] skip isb)
    have c: "Create r ?b = (r\<lparr>byID := (byID r)(u \<mapsto> ?b)\<rparr>, Inr ?b)"
      using fresh idb isb by (simp add: Create_def Let_def normalizeISBN_def)
    show "snd (CreateBook F u n1 n2 r inp) = Inr ?b \<and>
        GetByID (fst (CreateBook F u n1 n2 r inp)) u = Inr ?b \<and>
        byISBN (fst (CreateBook F u n1 n2 r inp)) = byISBN r"
      by (simp add: eq c GetByID_def)
  qed
  from 1 v skip[of F] same meta t t0 ok show ?thesis by blast
qed

text \<open>No title, an empty ISBN, enrichment requested: stored with an empty title.\<close>

theorem CreateBook_empty_isbn_witness:
  "snd (CreateBook (mockEnrich True) ''id-1'' 1 2 NewBookRepo
       (zeroInput\<lparr>CreateBookInput.ISBN := Some '''', Enrich := True\<rparr>))
     = Inr \<lparr>ID = ''id-1'', ISBN = Some '''', Title = '''',
          Subtitle = None, PublishedYear = None, PageCount = None, CoverURL = None,
          Tags = [], Authors = [],
          Enrichment = \<lparr>Attempted = False, Source = '''', Status = EnrichmentNotRequested,
            LookedUpISBN = ''''\<rparr>,
          CreatedAt = 1, UpdatedAt = 2\<rparr> \<and>
   CreateBook (mockEnrich True) ''id-1'' 1 2 NewBookRepo
       (zeroInput\<lparr>CreateBookInput.ISBN := Some '''', Enrich := True\<rparr>)
     = CreateBook (mockEnrich False) ''id-1'' 1 2 NewBookRepo
       (zeroInput\<lparr>CreateBookInput.ISBN := Some '''', Enrich := True\<rparr>)"
proof -
  let ?inp = "zeroInput\<lparr>CreateBookInput.ISBN := Some '''', Enrich := True\<rparr>"
  have h: "Enrich ?inp" "CreateBookInput.ISBN ?inp = Some ''''"
    by (simp_all add: zeroInput_def)
  have v: "valid_as_specified ?inp \<and> ''id-1'' \<noteq> '''' \<and> byID NewBookRepo ''id-1'' = None"
    by (simp add: valid_as_specified_def zeroInput_def NewBookRepo_def)
  have c: "construct ''id-1'' 1 2 ?inp =
      \<lparr>ID = ''id-1'', ISBN = Some '''', Title = '''',
          Subtitle = None, PublishedYear = None, PageCount = None, CoverURL = None,
          Tags = [], Authors = [],
          Enrichment = \<lparr>Attempted = False, Source = '''', Status = EnrichmentNotRequested,
            LookedUpISBN = ''''\<rparr>,
          CreatedAt = 1, UpdatedAt = 2\<rparr>"
    by (simp add: construct_def zeroInput_def valueOr_def)
  note th = CreateBook_empty_isbn[OF h, where F = "mockEnrich True" and G = "mockEnrich False"
      and u = "''id-1''" and ?n1.0 = 1 and ?n2.0 = 2 and r = NewBookRepo]
  from th v have 1: "snd (CreateBook (mockEnrich True) ''id-1'' 1 2 NewBookRepo ?inp)
      = Inr (construct ''id-1'' 1 2 ?inp)"
    by blast
  from th have 2: "CreateBook (mockEnrich True) ''id-1'' 1 2 NewBookRepo ?inp
      = CreateBook (mockEnrich False) ''id-1'' 1 2 NewBookRepo ?inp"
    by blast
  from 1 2 show ?thesis unfolding c by simp
qed

text \<open>With the title \<open>T\<close> the stored title is \<open>T\<close>, not the empty string.\<close>

theorem CreateBook_empty_isbn_counterexample:
  "Enrich (zeroInput\<lparr>CreateBookInput.ISBN := Some '''',
      CreateBookInput.Title := Some ''T'', Enrich := True\<rparr>) \<and>
   CreateBookInput.ISBN (zeroInput\<lparr>CreateBookInput.ISBN := Some '''',
      CreateBookInput.Title := Some ''T'', Enrich := True\<rparr>) = Some '''' \<and>
   snd (CreateBook (mockEnrich True) ''id-1'' 1 2 NewBookRepo
       (zeroInput\<lparr>CreateBookInput.ISBN := Some '''',
          CreateBookInput.Title := Some ''T'', Enrich := True\<rparr>))
     = Inr \<lparr>ID = ''id-1'', ISBN = Some '''', Title = ''T'',
          Subtitle = None, PublishedYear = None, PageCount = None, CoverURL = None,
          Tags = [], Authors = [],
          Enrichment = \<lparr>Attempted = False, Source = '''', Status = EnrichmentNotRequested,
            LookedUpISBN = ''''\<rparr>,
          CreatedAt = 1, UpdatedAt = 2\<rparr> \<and>
   ''T'' \<noteq> ''''"
  by (simp add: CreateBook_def zeroInput_def enrichStep_def construct_def valueOr_def
      Create_def normalizeISBN_def NewBookRepo_def)

section \<open>Properties of the listing\<close>

subsection \<open>The filter\<close>























subsection \<open>The sort\<close>

lemma length_sink: "length (sink lessf x placed) = Suc (length placed)"
  by (induction placed) simp_all

lemma set_sink: "set (sink lessf x placed) = insert x (set placed)"
  by (induction placed) auto

lemma length_foldl_sink:
  "length (foldl (\<lambda>placed x. sink lessf x placed) acc xs) = length acc + length xs"
  by (induction xs arbitrary: acc) (simp_all add: length_sink)

lemma set_foldl_sink:
  "set (foldl (\<lambda>placed x. sink lessf x placed) acc xs) = set acc \<union> set xs"
  by (induction xs arbitrary: acc) (simp_all add: set_sink)

lemma length_insertionSort: "length (insertionSort lessf xs) = length xs"
  by (simp add: insertionSort_def length_foldl_sink)

lemma set_insertionSort: "set (insertionSort lessf xs) = set xs"
  by (simp add: insertionSort_def set_foldl_sink)

lemma length_sortBooks: "length (sortBooks bs keys) = length bs"
  by (simp add: sortBooks_def sort_Slice_def sort_SliceStable_def length_insertionSort)

lemma set_sortBooks: "set (sortBooks bs keys) = set bs"
  by (simp add: sortBooks_def sort_Slice_def sort_SliceStable_def set_insertionSort)

text \<open>
  With no sort keys the result is in descending order of creation time. (Nothing more:
  records of equal creation time stay in the order of the snapshot.)
\<close>

lemma sorted_sink:
  fixes k :: "'a \<Rightarrow> int"
  assumes "sorted_wrt (\<lambda>a b. k a \<le> k b) placed"
  shows "sorted_wrt (\<lambda>a b. k a \<le> k b) (sink (\<lambda>a b. k a > k b) x placed)"
  using assms
proof (induction placed)
  case Nil
  then show ?case by simp
next
  case (Cons y placed)
  show ?case
  proof (cases "k x > k y")
    case True
    have "\<forall>z \<in> set (sink (\<lambda>a b. k a > k b) x placed). k y \<le> k z"
      using Cons.prems True by (auto simp: set_sink)
    with Cons True show ?thesis by simp
  next
    case False
    with Cons.prems show ?thesis by auto
  qed
qed

lemma sorted_foldl_sink:
  fixes k :: "'a \<Rightarrow> int"
  assumes "sorted_wrt (\<lambda>a b. k a \<le> k b) acc"
  shows "sorted_wrt (\<lambda>a b. k a \<le> k b)
           (foldl (\<lambda>placed x. sink (\<lambda>a b. k a > k b) x placed) acc xs)"
  using assms by (induction xs arbitrary: acc) (simp_all add: sorted_sink)

lemma sortBooks_default_descending:
  "sorted_wrt (\<lambda>a b. CreatedAt a \<ge> CreatedAt b) (sortBooks bs [])"
proof -
  have "sorted_wrt (\<lambda>a b. CreatedAt a \<le> CreatedAt b)
          (foldl (\<lambda>placed x. sink (\<lambda>a b. CreatedAt a > CreatedAt b) x placed) [] bs)"
    by (rule sorted_foldl_sink) simp
  then show ?thesis
    by (simp add: sortBooks_def sort_Slice_def insertionSort_def sorted_wrt_rev)
qed

subsection \<open>Pagination\<close>

lemma wrap64_id: "- (2 ^ 63) \<le> x \<Longrightarrow> x < 2 ^ 63 \<Longrightarrow> wrap64 x = x"
  by (simp add: wrap64_def)

text \<open>
  Where the products and sums of \<open>List\<close> stay within 64 bits, it returns the page the
  specification describes.
\<close>

lemma List_pagination_in_range:
  fixes r ks q
  defines "out \<equiv> sortBooks (filterBooks (snapshot r ks) q) (Sort q)"
    and "page \<equiv> (if Page q < 1 then 1 else Page q)"
    and "psize \<equiv> (if PageSize q < 1 then 20 else PageSize q)"
  assumes fit: "page * psize < 2 ^ 63" and tot: "int (length out) < 2 ^ 63"
  shows "List r ks q =
     Inr \<lparr>Data = take (nat psize) (drop (nat ((page - 1) * psize)) out),
          Page.Page = page, Page.PageSize = psize,
          Total = int (length (filterBooks (snapshot r ks) q))\<rparr>"
    and "(page - 1) * psize \<ge> int (length (filterBooks (snapshot r ks) q))
         \<Longrightarrow> take (nat psize) (drop (nat ((page - 1) * psize)) out) = []"
proof -
  let ?total = "int (length out)"
  have p1: "1 \<le> page" and s1: "1 \<le> psize"
    by (simp_all add: page_def psize_def)
  have len: "length out = length (filterBooks (snapshot r ks) q)"
    by (simp add: out_def length_sortBooks)
  have m0: "0 \<le> (page - 1) * psize" using p1 s1 by simp
  have "(page - 1) * psize + psize = page * psize" by (simp add: algebra_simps)
  with fit have m1: "(page - 1) * psize + psize < 2 ^ 63" by simp
  with s1 have m2: "(page - 1) * psize < 2 ^ 63" by linarith
  have w0: "wrap64 ((page - 1) * psize) = (page - 1) * psize"
    using m0 m2 by (intro wrap64_id) simp_all
  define start where "start = (if (page - 1) * psize > ?total then ?total else (page - 1) * psize)"
  have st: "0 \<le> start" "start \<le> ?total" "start \<le> (page - 1) * psize"
    using m0 by (simp_all add: start_def)
  have w1: "wrap64 (start + psize) = start + psize"
    using st s1 m1 by (intro wrap64_id) linarith+
  define end' where "end' = (if start + psize > ?total then ?total else start + psize)"
  have en: "start \<le> end'" "end' \<le> ?total"
    using st s1 by (simp_all add: end'_def)
  have w2: "wrap64 (end' - start) = end' - start"
    using en st tot by (intro wrap64_id) linarith+
  have L: "List r ks q =
     Inr \<lparr>Data = take (nat (end' - start)) (drop (nat start) out),
          Page.Page = page, Page.PageSize = psize, Total = ?total\<rparr>"
    unfolding List_def Let_def
    unfolding out_def[symmetric] page_def[symmetric] psize_def[symmetric]
    unfolding w0 start_def[symmetric] w1 end'_def[symmetric] w2
    using en st by simp
  have D: "take (nat (end' - start)) (drop (nat start) out)
      = take (nat psize) (drop (nat ((page - 1) * psize)) out)"
  proof (cases "(page - 1) * psize > ?total")
    case True
    then have "start = ?total" by (simp add: start_def)
    moreover from this s1 have "end' = ?total" by (simp add: end'_def)
    ultimately show ?thesis using True by simp
  next
    case False
    then have s: "start = (page - 1) * psize" by (simp add: start_def)
    show ?thesis
    proof (cases "start + psize > ?total")
      case True
      then have "end' = ?total" by (simp add: end'_def)
      moreover have "length (drop (nat start) out) = nat (?total - start)"
        using st by simp
      ultimately show ?thesis using True s st s1
        by (simp add: take_all_iff)
    next
      case False
      then have "end' = start + psize" by (simp add: end'_def)
      then show ?thesis using s by simp
    qed
  qed
  show "List r ks q =
     Inr \<lparr>Data = take (nat psize) (drop (nat ((page - 1) * psize)) out),
          Page.Page = page, Page.PageSize = psize,
          Total = int (length (filterBooks (snapshot r ks) q))\<rparr>"
    using L D len by simp
  show "take (nat psize) (drop (nat ((page - 1) * psize)) out) = []"
    if "(page - 1) * psize \<ge> int (length (filterBooks (snapshot r ks) q))"
    using that len by simp
qed

text \<open>
  Claim C4, where the arithmetic leaves 64 bits. One record is stored. With page 2 and
  the largest page size, \<open>(page - 1) * size\<close> is beyond the total, \<open>start + size\<close> wraps to
  a negative \<open>end\<close>, and \<open>List\<close> panics. With page \<open>2^62 + 1\<close> and page size 4,
  \<open>(page - 1) * size\<close> is \<open>2^64\<close>, which wraps to 0, and \<open>List\<close> returns the record.
\<close>

theorem List_pagination_overflow:
  "List (fst (Create NewBookRepo (zeroBook\<lparr>ID := ''b1'', Title := ''T''\<rparr>))) [''b1'']
      \<lparr>Q = None, Author = None, Year = None, Tag = None, Sort = [],
       Page = 2, PageSize = 9223372036854775807\<rparr>
     = Inl RuntimePanic \<and>
   List (fst (Create NewBookRepo (zeroBook\<lparr>ID := ''b1'', Title := ''T''\<rparr>))) [''b1'']
      \<lparr>Q = None, Author = None, Year = None, Tag = None, Sort = [],
       Page = 4611686018427387905, PageSize = 4\<rparr>
     = Inr \<lparr>Data = [zeroBook\<lparr>ID := ''b1'', Title := ''T''\<rparr>],
            Page.Page = 4611686018427387905, Page.PageSize = 4, Total = 1\<rparr>"
proof -
  let ?b = "zeroBook\<lparr>ID := ''b1'', Title := ''T''\<rparr>"
  let ?r = "fst (Create NewBookRepo ?b)"
  have snap: "snapshot ?r [''b1''] = [?b]"
    by (simp add: snapshot_def Create_def NewBookRepo_def zeroBook_def)
  have flt: "\<And>p s. filterBooks [?b]
      \<lparr>Q = None, Author = None, Year = None, Tag = None, Sort = [], Page = p, PageSize = s\<rparr>
      = [?b]"
    by (simp add: matchFilters_def)
  have srt: "sortBooks [?b] [] = [?b]"
    by (simp add: sortBooks_def sort_Slice_def insertionSort_def)
  have sq: "\<And>p s. Sort \<lparr>Q = None, Author = None, Year = None, Tag = None, Sort = [],
      Page = p, PageSize = s\<rparr> = []"
    by simp
  have 1: "List ?r [''b1'']
      \<lparr>Q = None, Author = None, Year = None, Tag = None, Sort = [],
       Page = 2, PageSize = 9223372036854775807\<rparr> = Inl RuntimePanic"
    unfolding List_def Let_def snap flt sq srt by (simp add: wrap64_def)
  have 2: "List ?r [''b1'']
      \<lparr>Q = None, Author = None, Year = None, Tag = None, Sort = [],
       Page = 4611686018427387905, PageSize = 4\<rparr>
     = Inr \<lparr>Data = [?b], Page.Page = 4611686018427387905, Page.PageSize = 4, Total = 1\<rparr>"
    unfolding List_def Let_def snap flt sq srt by (simp add: wrap64_def)
  from 1 2 show ?thesis by simp
qed

text \<open>
  Claim C2, for equal creation times. Two records \<open>a\<close> and \<open>b\<close> of the same creation
  time are stored; both orders of the two keys are orders in which the loop over the map
  may visit them. With no sort keys \<open>List\<close> returns the records in the order of the
  visit: \<open>b\<close> before \<open>a\<close> in one, \<open>a\<close> before \<open>b\<close> in the other. The identifier does
  not break the tie.
\<close>

theorem List_default_sort_ties:
  "iteration_order
     (fst (Create (fst (Create NewBookRepo (zeroBook\<lparr>ID := ''a'', CreatedAt := 1000\<rparr>)))
        (zeroBook\<lparr>ID := ''b'', CreatedAt := 1000\<rparr>))) [''b'', ''a''] \<and>
   iteration_order
     (fst (Create (fst (Create NewBookRepo (zeroBook\<lparr>ID := ''a'', CreatedAt := 1000\<rparr>)))
        (zeroBook\<lparr>ID := ''b'', CreatedAt := 1000\<rparr>))) [''a'', ''b''] \<and>
   List (fst (Create (fst (Create NewBookRepo (zeroBook\<lparr>ID := ''a'', CreatedAt := 1000\<rparr>)))
        (zeroBook\<lparr>ID := ''b'', CreatedAt := 1000\<rparr>))) [''b'', ''a'']
      \<lparr>Q = None, Author = None, Year = None, Tag = None, Sort = [], Page = 1, PageSize = 20\<rparr>
     = Inr \<lparr>Data = [zeroBook\<lparr>ID := ''b'', CreatedAt := 1000\<rparr>,
                    zeroBook\<lparr>ID := ''a'', CreatedAt := 1000\<rparr>],
            Page.Page = 1, Page.PageSize = 20, Total = 2\<rparr> \<and>
   List (fst (Create (fst (Create NewBookRepo (zeroBook\<lparr>ID := ''a'', CreatedAt := 1000\<rparr>)))
        (zeroBook\<lparr>ID := ''b'', CreatedAt := 1000\<rparr>))) [''a'', ''b'']
      \<lparr>Q = None, Author = None, Year = None, Tag = None, Sort = [], Page = 1, PageSize = 20\<rparr>
     = Inr \<lparr>Data = [zeroBook\<lparr>ID := ''a'', CreatedAt := 1000\<rparr>,
                    zeroBook\<lparr>ID := ''b'', CreatedAt := 1000\<rparr>],
            Page.Page = 1, Page.PageSize = 20, Total = 2\<rparr>"
proof -
  let ?a = "zeroBook\<lparr>ID := ''a'', CreatedAt := 1000\<rparr>"
  let ?b = "zeroBook\<lparr>ID := ''b'', CreatedAt := 1000\<rparr>"
  let ?r = "fst (Create (fst (Create NewBookRepo ?a)) ?b)"
  let ?q = "\<lparr>Q = None, Author = None, Year = None, Tag = None, Sort = [],
      Page = 1, PageSize = 20\<rparr>"
  have m: "byID ?r = [''a'' \<mapsto> ?a, ''b'' \<mapsto> ?b]"
    by (simp add: Create_def NewBookRepo_def zeroBook_def)
  have it: "iteration_order ?r [''b'', ''a'']" "iteration_order ?r [''a'', ''b'']"
    unfolding iteration_order_def m by auto
  have snap: "snapshot ?r [''b'', ''a''] = [?b, ?a]" "snapshot ?r [''a'', ''b''] = [?a, ?b]"
    unfolding snapshot_def m by simp_all
  have flt: "filterBooks [?b, ?a] ?q = [?b, ?a]" "filterBooks [?a, ?b] ?q = [?a, ?b]"
    by (simp_all add: matchFilters_def)
  have srt: "sortBooks [?b, ?a] [] = [?b, ?a]" "sortBooks [?a, ?b] [] = [?a, ?b]"
    by (simp_all add: sortBooks_def sort_Slice_def insertionSort_def zeroBook_def)
  have sq: "Sort ?q = []" by simp
  have 1: "List ?r [''b'', ''a''] ?q =
      Inr \<lparr>Data = [?b, ?a], Page.Page = 1, Page.PageSize = 20, Total = 2\<rparr>"
    unfolding List_def Let_def snap flt sq srt by (simp add: wrap64_def)
  have 2: "List ?r [''a'', ''b''] ?q =
      Inr \<lparr>Data = [?a, ?b], Page.Page = 1, Page.PageSize = 20, Total = 2\<rparr>"
    unfolding List_def Let_def snap flt sq srt by (simp add: wrap64_def)
  from it 1 2 show ?thesis by simp
qed

end
